theory Spec2Isabelle
  imports Complex_Main "HOL-Library.Log_Nat"
begin

section \<open>Strings and numbers of the host language\<close>

text \<open>
  JavaScript strings are modelled as HOL strings (one \<open>char\<close> per code unit; every string
  the program builds itself is ASCII). JavaScript numbers that are integers (upstream ids,
  page numbers, the skip offset, timestamps in milliseconds) are modelled as \<open>int\<close>, which is
  exact below \<open>2^53\<close>; the one fractional number the formatter touches, the average rating,
  is a \<open>rat\<close> holding the exact value of the double. The \<open>skip\<close> of a request comes from
  outside the program: it is a list of UTF-16 code units, and the arithmetic the handler
  does on it is the arithmetic of doubles, with its rounding (see \<open>roundDouble\<close> below).
\<close>

definition digitChar :: "nat \<Rightarrow> char" where
  "digitChar d = ''0123456789'' ! d"

text \<open>Number-to-string conversion of a non-negative integer: its decimal digits.\<close>

fun showNat :: "nat \<Rightarrow> string" where
  "showNat n = (if n < 10 then [digitChar n] else showNat (n div 10) @ [digitChar (n mod 10)])"

declare showNat.simps [simp del]

text \<open>\<open>String(n)\<close> and \<open>`${n}`\<close> for an integer \<open>n\<close>.\<close>

definition showInt :: "int \<Rightarrow> string" where
  "showInt i = (if i < 0 then CHR ''-'' # showNat (nat (- i)) else showNat (nat i))"

text \<open>Truthiness of a possibly absent string: \<open>undefined\<close>, \<open>null\<close> and \<open>''\<close> are falsy.\<close>

definition truthy :: "string option \<Rightarrow> bool" where
  "truthy v = (case v of None \<Rightarrow> False | Some s \<Rightarrow> s \<noteq> [])"

text \<open>\<open>a || b\<close> on possibly absent strings.\<close>

definition js_or :: "string option \<Rightarrow> string option \<Rightarrow> string option" where
  "js_or a b = (if truthy a then a else b)"

text \<open>\<open>s.substring(0, n)\<close>: the first \<open>n\<close> code units, or all of \<open>s\<close> when it is shorter.\<close>

definition substring0 :: "nat \<Rightarrow> string \<Rightarrow> string" where
  "substring0 n s = take n s"

text \<open>
  \<open>x.toFixed(1)\<close>: the sign is split off, then the integer \<open>n\<close> with \<open>n / 10\<close> closest to
  \<open>x\<close> is taken (the larger one on a tie) and printed with one digit after the point.
\<close>

definition toFixed1 :: "rat \<Rightarrow> string" where
  "toFixed1 x =
     (let s = (if x < 0 then ''-'' else '''');
          a = \<bar>x\<bar>;
          n = nat \<lfloor>a * 10 + 1 / 2\<rfloor>
      in s @ showNat (n div 10) @ ''.'' @ [digitChar (n mod 10)])"

text \<open>
  The code units of a string of the model.
\<close>

definition units :: "string \<Rightarrow> nat list" where
  "units s = map of_char s"

text \<open>
  Rounding a real value to a double (IEEE 754 binary64, round to nearest, ties to even),
  as every arithmetic operation of the language does with its exact result. A double has
  a significand of 53 bits: for a value \<open>x\<close> with \<open>2^e \<le> |x| < 2^(e+1)\<close> the doubles around
  \<open>x\<close> are the multiples of \<open>2^(e-52)\<close>, and \<open>x\<close> is rounded to the nearest of them, to the
  one with the even multiplier when it lies halfway. \<open>ilog2 x\<close> is that exponent \<open>e\<close>. The
  definition covers the normal range of doubles (\<open>2^-1022 \<le> |x| < 2^1024\<close>); the values
  the handler computes, whose magnitude lies between \<open>1/20\<close> and \<open>10^20\<close>, are all in it.
\<close>

definition roundHalfEven :: "rat \<Rightarrow> int" where
  "roundHalfEven m =
     (let f = \<lfloor>m\<rfloor>; d = m - of_int f
      in if d < 1 / 2 then f else if 1 / 2 < d then f + 1 else if even f then f else f + 1)"

definition ilog2 :: "rat \<Rightarrow> int" where
  "ilog2 x = (if 1 \<le> x then bitlen \<lfloor>x\<rfloor> - 1 else - bitlen (\<lceil>1 / x\<rceil> - 1))"

definition roundDouble :: "rat \<Rightarrow> rat" where
  "roundDouble x =
     (if x = 0 then 0
      else (let a = \<bar>x\<bar>; u = 2 powi (ilog2 a - 52)
            in sgn x * of_int (roundHalfEven (a / u)) * u))"

section \<open>The genre table\<close>

definition GENRE_MAP :: "(int \<times> string) list" where
  "GENRE_MAP =
    [(28, ''Action''),
     (12, ''Adventure''),
     (16, ''Animation''),
     (35, ''Comedy''),
     (80, ''Crime''),
     (99, ''Documentary''),
     (18, ''Drama''),
     (10751, ''Family''),
     (14, ''Fantasy''),
     (36, ''History''),
     (27, ''Horror''),
     (10402, ''Music''),
     (9648, ''Mystery''),
     (10749, ''Romance''),
     (878, ''Sci-Fi''),
     (10770, ''TV Movie''),
     (53, ''Thriller''),
     (10752, ''War''),
     (37, ''Western''),
     (10759, ''Action & Adventure''),
     (10762, ''Kids''),
     (10763, ''News''),
     (10764, ''Reality''),
     (10765, ''Sci-Fi & Fantasy''),
     (10766, ''Soap''),
     (10767, ''Talk''),
     (10768, ''War & Politics'')]"

text \<open>\<open>GENRE_MAP[id]\<close>: the name stored under the id, \<open>undefined\<close> for an id not in the table.\<close>

definition genreLookup :: "int \<Rightarrow> string option" where
  "genreLookup gid = map_of GENRE_MAP gid"

text \<open>\<open>xs.filter(Boolean)\<close> on a list of possibly absent strings.\<close>

definition filterBooleanStr :: "string option list \<Rightarrow> string list" where
  "filterBooleanStr xs = map the (filter truthy xs)"

text \<open>\<open>(genre_ids || []).map(id => GENRE_MAP[id]).filter(Boolean)\<close>\<close>

definition genreNames :: "int list option \<Rightarrow> string list" where
  "genreNames genre_ids =
     filterBooleanStr (map genreLookup (case genre_ids of None \<Rightarrow> [] | Some ids \<Rightarrow> ids))"

section \<open>Upstream records and formatted metadata\<close>

text \<open>
  A raw record as the upstream API documents it: every field may be missing or \<open>null\<close>
  (\<open>None\<close>). A record carries the movie fields (\<open>title\<close>, \<open>release_date\<close>) or the series
  fields (\<open>name\<close>, \<open>first_air_date\<close>); the formatter of each kind reads its own.
\<close>

record rawRecord =
  id_r :: "int option"
  title :: "string option"
  original_title :: "string option"
  name_r :: "string option"
  original_name :: "string option"
  overview :: "string option"
  release_date :: "string option"
  first_air_date :: "string option"
  vote_average :: "rat option"
  genre_ids :: "int list option"

record meta =
  id_m :: string
  imdb_id_m :: string
  type_m :: string
  name_m :: "string option"
  poster :: string
  background :: string
  logo :: string
  description :: "string option"
  releaseInfo :: "string option"
  imdbRating :: "string option"
  year :: "string option"
  genres :: "string list"

definition METAHUB_URL :: string where
  "METAHUB_URL = ''https://images.metahub.space''"

definition TMDB_BASE_URL :: string where
  "TMDB_BASE_URL = ''https://api.themoviedb.org/3''"

text \<open>The object literal that \<open>_formatMovie\<close> returns once the external id is known.\<close>

definition movieMeta :: "rawRecord \<Rightarrow> string \<Rightarrow> meta" where
  "movieMeta movie imdbId =
     \<lparr> id_m = imdbId,
       imdb_id_m = imdbId,
       type_m = ''movie'',
       name_m = js_or (title movie) (original_title movie),
       poster = METAHUB_URL @ ''/poster/medium/'' @ imdbId @ ''/img'',
       background = METAHUB_URL @ ''/background/medium/'' @ imdbId @ ''/img'',
       logo = METAHUB_URL @ ''/logo/medium/'' @ imdbId @ ''/img'',
       description = overview movie,
       releaseInfo = map_option (substring0 4) (release_date movie),
       imdbRating = map_option toFixed1 (vote_average movie),
       year = map_option (substring0 4) (release_date movie),
       genres = genreNames (genre_ids movie) \<rparr>"

text \<open>The object literal that \<open>_formatSeries\<close> returns once the external id is known.\<close>

definition seriesMeta :: "rawRecord \<Rightarrow> string \<Rightarrow> meta" where
  "seriesMeta series imdbId =
     \<lparr> id_m = imdbId,
       imdb_id_m = imdbId,
       type_m = ''series'',
       name_m = js_or (name_r series) (original_name series),
       poster = METAHUB_URL @ ''/poster/medium/'' @ imdbId @ ''/img'',
       background = METAHUB_URL @ ''/background/medium/'' @ imdbId @ ''/img'',
       logo = METAHUB_URL @ ''/logo/medium/'' @ imdbId @ ''/img'',
       description = overview series,
       releaseInfo = map_option (substring0 4) (first_air_date series),
       imdbRating = map_option toFixed1 (vote_average series),
       year = map_option (substring0 4) (first_air_date series),
       genres = genreNames (genre_ids series) \<rparr>"

section \<open>The upstream query client\<close>

text \<open>
  A query parameter value as \<open>_fetch\<close> sees it: \<open>undefined\<close>, \<open>null\<close>, or a value, carried as
  the string that \<open>URLSearchParams.set\<close> turns it into.
\<close>

datatype param = PUndefined | PNull | PValue string

definition paramString :: "param \<Rightarrow> string" where
  "paramString p = (case p of PValue s \<Rightarrow> s | PNull \<Rightarrow> ''null'' | PUndefined \<Rightarrow> ''undefined'')"

definition num :: "int \<Rightarrow> param" where
  "num n = PValue (showInt n)"

text \<open>
  The URL object: the address without its query, and the list of query pairs that
  \<open>url.searchParams\<close> holds. Endpoint paths of this client contain no query of their own.
\<close>

record url =
  href :: string
  searchParams :: "(string \<times> string) list"

fun setFirst :: "string \<Rightarrow> string \<Rightarrow> (string \<times> string) list \<Rightarrow> (string \<times> string) list" where
  "setFirst k v [] = []"
| "setFirst k v (p # ps) =
     (if fst p = k then (k, v) # filter (\<lambda>q. fst q \<noteq> k) ps else p # setFirst k v ps)"

text \<open>
  \<open>url.searchParams.set(k, v)\<close>: the first pair named \<open>k\<close> takes the value and the other
  pairs named \<open>k\<close> are removed; with no such pair, the pair is appended.
\<close>

definition searchParams_set :: "string \<Rightarrow> string \<Rightarrow> url \<Rightarrow> url" where
  "searchParams_set k v u =
     u\<lparr>searchParams :=
         (if k \<in> set (map fst (searchParams u)) then setFirst k v (searchParams u)
          else searchParams u @ [(k, v)])\<rparr>"

text \<open>The body of the loop over \<open>Object.entries(params)\<close>.\<close>

definition setParam :: "url \<Rightarrow> string \<times> param \<Rightarrow> url" where
  "setParam u kv =
     (if snd kv \<noteq> PUndefined \<and> snd kv \<noteq> PNull
      then searchParams_set (fst kv) (paramString (snd kv)) u else u)"

text \<open>
  The URL that \<open>_fetch\<close> builds before it sends the request. \<open>params\<close> lists the
  properties of the parameter object in the order of \<open>Object.entries\<close>.
\<close>

definition requestUrl :: "string \<Rightarrow> string \<Rightarrow> string \<Rightarrow> (string \<times> param) list \<Rightarrow> url" where
  "requestUrl key lang endpoint params =
     foldl setParam
       (searchParams_set ''language'' lang
          (searchParams_set ''api_key'' key
             \<lparr>href = TMDB_BASE_URL @ endpoint, searchParams = []\<rparr>))
       params"

datatype error = NetworkError | ApiError nat | JsonError | TypeError

text \<open>
  The part of a response body the client reads: the external id of a cross-reference
  response and the record list of a listing response, each possibly missing. Entries of
  the record list may be \<open>null\<close>.
\<close>

record body =
  imdb_id :: "string option"
  results :: "rawRecord option list option"

text \<open>
  What the network answers: the request is rejected, or a response arrives with a status
  code and a body that parses as JSON (\<open>Some\<close>) or does not (\<open>None\<close>).
\<close>

datatype reply = Rejected | Response nat "body option"

text \<open>
  The upstream service is a parameter: the reply to the \<open>n\<close>-th request the process
  issues, given its URL. The same URL may be answered differently at different times.
\<close>

type_synonym upstream = "nat \<Rightarrow> url \<Rightarrow> reply"

text \<open>A cache entry of the response cache.\<close>

record entry =
  data :: "meta list"
  timestamp :: int

text \<open>
  The mutable state: the client's fields (\<open>apiKey\<close>, \<open>language\<close>, \<open>imdbCache\<close>), the
  module-level response \<open>cache\<close>, and the log of the requests sent so far.
\<close>

record state =
  apiKey :: string
  language :: string
  imdbCache :: "string \<rightharpoonup> string option"
  cache :: "string \<rightharpoonup> entry"
  requests :: "url list"

definition tmdb_fetch ::
  "upstream \<Rightarrow> string \<Rightarrow> (string \<times> param) list \<Rightarrow> state \<Rightarrow> (error + body) \<times> state" where
  "tmdb_fetch up endpoint params st =
     (let u = requestUrl (apiKey st) (language st) endpoint params;
          st' = st\<lparr>requests := requests st @ [u]\<rparr>
      in case up (length (requests st)) u of
           Rejected \<Rightarrow> (Inl NetworkError, st')
         | Response status b \<Rightarrow>
             if \<not> (200 \<le> status \<and> status \<le> 299) then (Inl (ApiError status), st')
             else (case b of None \<Rightarrow> (Inl JsonError, st') | Some d \<Rightarrow> (Inr d, st')))"

section \<open>The identifier resolver\<close>

text \<open>
  An asynchronous function runs up to its first \<open>await\<close> when it is called. The resolver
  reads \<open>imdbCache\<close> in that first part and writes it after the reply. \<open>seen\<close> is the
  identifier cache as it stands at the moment of the call: for a single awaited call it is
  the cache of the current state, for the calls started together by \<open>Promise.all\<close> it is the
  cache before any of them has received its reply.
\<close>

definition getMovieImdbId_from ::
  "(string \<rightharpoonup> string option) \<Rightarrow> upstream \<Rightarrow> int \<Rightarrow> state \<Rightarrow> string option \<times> state" where
  "getMovieImdbId_from seen up tmdbId st =
     (let k = ''movie_'' @ showInt tmdbId in
      case seen k of
        Some v \<Rightarrow> (v, st)
      | None \<Rightarrow>
          (case tmdb_fetch up (''/movie/'' @ showInt tmdbId @ ''/external_ids'') [] st of
             (Inl err, st') \<Rightarrow> (None, st')
           | (Inr d, st') \<Rightarrow>
               (let imdbId = js_or (imdb_id d) None
                in (imdbId, st'\<lparr>imdbCache := (imdbCache st')(k \<mapsto> imdbId)\<rparr>))))"

definition getSeriesImdbId_from ::
  "(string \<rightharpoonup> string option) \<Rightarrow> upstream \<Rightarrow> int \<Rightarrow> state \<Rightarrow> string option \<times> state" where
  "getSeriesImdbId_from seen up tmdbId st =
     (let k = ''series_'' @ showInt tmdbId in
      case seen k of
        Some v \<Rightarrow> (v, st)
      | None \<Rightarrow>
          (case tmdb_fetch up (''/tv/'' @ showInt tmdbId @ ''/external_ids'') [] st of
             (Inl err, st') \<Rightarrow> (None, st')
           | (Inr d, st') \<Rightarrow>
               (let imdbId = js_or (imdb_id d) None
                in (imdbId, st'\<lparr>imdbCache := (imdbCache st')(k \<mapsto> imdbId)\<rparr>))))"

text \<open>\<open>await this._getMovieImdbId(tmdbId)\<close> and \<open>await this._getSeriesImdbId(tmdbId)\<close>.\<close>

definition getMovieImdbId :: "upstream \<Rightarrow> int \<Rightarrow> state \<Rightarrow> string option \<times> state" where
  "getMovieImdbId up tmdbId st = getMovieImdbId_from (imdbCache st) up tmdbId st"

definition getSeriesImdbId :: "upstream \<Rightarrow> int \<Rightarrow> state \<Rightarrow> string option \<times> state" where
  "getSeriesImdbId up tmdbId st = getSeriesImdbId_from (imdbCache st) up tmdbId st"

section \<open>The record formatter\<close>

text \<open>\<open>!movie || !movie.id\<close>: the record is \<open>null\<close>, or its id is missing, \<open>null\<close> or \<open>0\<close>.\<close>

definition lacksId :: "rawRecord option \<Rightarrow> bool" where
  "lacksId r = (case r of None \<Rightarrow> True
                | Some x \<Rightarrow> (case id_r x of None \<Rightarrow> True | Some i \<Rightarrow> i = 0))"

definition formatMovie_from ::
  "(string \<rightharpoonup> string option) \<Rightarrow> upstream \<Rightarrow> rawRecord option \<Rightarrow> state \<Rightarrow> meta option \<times> state" where
  "formatMovie_from seen up movie st =
     (if lacksId movie then (None, st)
      else (case getMovieImdbId_from seen up (the (id_r (the movie))) st of
              (imdbId, st') \<Rightarrow>
                if \<not> truthy imdbId then (None, st')
                else (Some (movieMeta (the movie) (the imdbId)), st')))"

definition formatSeries_from ::
  "(string \<rightharpoonup> string option) \<Rightarrow> upstream \<Rightarrow> rawRecord option \<Rightarrow> state \<Rightarrow> meta option \<times> state" where
  "formatSeries_from seen up series st =
     (if lacksId series then (None, st)
      else (case getSeriesImdbId_from seen up (the (id_r (the series))) st of
              (imdbId, st') \<Rightarrow>
                if \<not> truthy imdbId then (None, st')
                else (Some (seriesMeta (the series) (the imdbId)), st')))"

text \<open>\<open>await this._formatMovie(movie)\<close> and \<open>await this._formatSeries(series)\<close>.\<close>

definition formatMovie :: "upstream \<Rightarrow> rawRecord option \<Rightarrow> state \<Rightarrow> meta option \<times> state" where
  "formatMovie up movie st = formatMovie_from (imdbCache st) up movie st"

definition formatSeries :: "upstream \<Rightarrow> rawRecord option \<Rightarrow> state \<Rightarrow> meta option \<times> state" where
  "formatSeries up series st = formatSeries_from (imdbCache st) up series st"

section \<open>The response cache\<close>

definition CACHE_TTL :: int where
  "CACHE_TTL = 30 * 60 * 1000"

text \<open>
  The first part of \<open>cached\<close>, up to its \<open>await\<close>: the stored data when the key has an
  entry and \<open>now - entry.timestamp < CACHE_TTL\<close>, otherwise a miss.
\<close>

definition cached_hit :: "int \<Rightarrow> string \<Rightarrow> (string \<rightharpoonup> entry) \<Rightarrow> meta list option" where
  "cached_hit now k c =
     (case c k of
        None \<Rightarrow> None
      | Some e \<Rightarrow> if now - timestamp e < CACHE_TTL then Some (data e) else None)"

text \<open>
  The last part of \<open>cached\<close>, after \<open>fn\<close> has returned: \<open>cache.set(key, { data, timestamp: now })\<close>,
  where \<open>now\<close> was read when the call began.
\<close>

definition cached_store :: "int \<Rightarrow> string \<Rightarrow> meta list \<Rightarrow> (string \<rightharpoonup> entry) \<Rightarrow> (string \<rightharpoonup> entry)" where
  "cached_store now k d c = c(k \<mapsto> \<lparr>data = d, timestamp = now\<rparr>)"

text \<open>
  \<open>cached(key, fn)\<close>, called when the clock reads \<open>now\<close>. A failure of \<open>fn\<close> leaves the cache
  as it is and is passed on to the caller.
\<close>

definition cached ::
  "int \<Rightarrow> string \<Rightarrow> (state \<Rightarrow> (error + meta list) \<times> state) \<Rightarrow> state \<Rightarrow> (error + meta list) \<times> state" where
  "cached now k fn st =
     (case cached_hit now k (cache st) of
        Some d \<Rightarrow> (Inr d, st)
      | None \<Rightarrow>
          (case fn st of
             (Inl err, st') \<Rightarrow> (Inl err, st')
           | (Inr d, st') \<Rightarrow> (Inr d, st'\<lparr>cache := cached_store now k d (cache st')\<rparr>)))"

section \<open>Catalogue fetch operations\<close>

text \<open>
  \<open>Promise.all(xs.map(f))\<close>: the calls start in list order and the results keep that order.
  Replies are taken to arrive in the order of their requests.
\<close>

fun promiseAll_map :: "('a \<Rightarrow> state \<Rightarrow> 'b \<times> state) \<Rightarrow> 'a list \<Rightarrow> state \<Rightarrow> 'b list \<times> state" where
  "promiseAll_map f [] st = ([], st)"
| "promiseAll_map f (x # xs) st =
     (case f x st of
        (y, st') \<Rightarrow> (case promiseAll_map f xs st' of (ys, st'') \<Rightarrow> (y # ys, st'')))"

text \<open>\<open>results.filter(Boolean)\<close> on formatter results: an object is truthy, \<open>null\<close> is not.\<close>

definition filterBoolean :: "meta option list \<Rightarrow> meta list" where
  "filterBoolean rs = map the (filter (\<lambda>r. r \<noteq> None) rs)"

datatype kind = Movie | Series

text \<open>The formatter of a kind, and the resolver call it makes for a record that has an id.\<close>

definition formatOne ::
  "kind \<Rightarrow> (string \<rightharpoonup> string option) \<Rightarrow> upstream \<Rightarrow> rawRecord option \<Rightarrow> state \<Rightarrow> meta option \<times> state" where
  "formatOne kd seen up r st =
     (case kd of Movie \<Rightarrow> formatMovie_from seen up r st
               | Series \<Rightarrow> formatSeries_from seen up r st)"

definition resolved ::
  "kind \<Rightarrow> (string \<rightharpoonup> string option) \<Rightarrow> upstream \<Rightarrow> rawRecord option \<Rightarrow> state \<Rightarrow> string option" where
  "resolved kd seen up r st =
     (case kd of Movie \<Rightarrow> fst (getMovieImdbId_from seen up (the (id_r (the r))) st)
               | Series \<Rightarrow> fst (getSeriesImdbId_from seen up (the (id_r (the r))) st))"

text \<open>
  \<open>Promise.all(data.results.map(r => this._formatMovie(r)))\<close> and its series twin: every
  formatter call starts, and so reads the identifier cache, before any reply arrives.
\<close>

definition formatAll :: "kind \<Rightarrow> upstream \<Rightarrow> rawRecord option list \<Rightarrow> state \<Rightarrow> meta option list \<times> state" where
  "formatAll kd up rs st = promiseAll_map (formatOne kd (imdbCache st) up) rs st"

text \<open>
  The body every listing operation shares: fetch one page, format every record of
  \<open>data.results\<close>, drop the absent results. A body without a \<open>results\<close> list makes
  \<open>data.results.map\<close> throw.
\<close>

definition listing ::
  "kind \<Rightarrow> upstream \<Rightarrow> string \<Rightarrow> (string \<times> param) list \<Rightarrow> state \<Rightarrow> (error + meta list) \<times> state" where
  "listing kd up endpoint params st =
     (case tmdb_fetch up endpoint params st of
        (Inl err, st') \<Rightarrow> (Inl err, st')
      | (Inr d, st') \<Rightarrow>
          (case results d of
             None \<Rightarrow> (Inl TypeError, st')
           | Some rs \<Rightarrow>
               (case formatAll kd up rs st' of
                  (ms, st'') \<Rightarrow> (Inr (filterBoolean ms), st''))))"

text \<open>
  The named operations of the client, each with the arguments it takes before the page.
  Every one of them is \<open>cached(key, () => listing)\<close>; \<open>describe\<close> gives, for a page, the cache
  key, the record kind, the endpoint and the query parameters of each.
\<close>

datatype tmdbCall =
    GetTrendingMoviesDay | GetTrendingMoviesWeek | GetTrendingSeriesDay | GetTrendingSeriesWeek
  | GetTopRatedMovies | GetTopRatedSeries | GetPopularMovies | GetHiddenGems
  | GetNowPlayingMovies | GetUpcomingMovies
  | GetMoviesByGenre int | GetSeriesByGenre int
  | GetMiniSeries | GetKDramas | GetAnime | GetDocuSeries
  | GetMoviesByProvider int string | GetSeriesByProvider int string
  | GetMoviesByCountry string
  | GetJDrama | GetAsianDrama | GetChineseMovies | GetKoreanRomance
  | GetCrimeMovies | GetCrimeSeries | GetClassicSeries | GetClassicMovies
  | GetMoviesByKeyword int
  | GetChristmasMovies | GetHalloweenMovies | GetFeelGoodMovies | GetMindBendingMovies
  | GetCultMovies | GetFamilyMovies | GetOscarWinners

record opDescr =
  op_key :: string
  op_kind :: kind
  op_endpoint :: string
  op_params :: "(string \<times> param) list"

definition mk :: "string \<Rightarrow> kind \<Rightarrow> string \<Rightarrow> (string \<times> param) list \<Rightarrow> opDescr" where
  "mk k kd e ps = \<lparr>op_key = k, op_kind = kd, op_endpoint = e, op_params = ps\<rparr>"

fun describe :: "tmdbCall \<Rightarrow> int \<Rightarrow> opDescr" where
  "describe GetTrendingMoviesDay page =
     mk (''trending_movies_day_'' @ showInt page) Movie ''/trending/movie/day'' [(''page'', num page)]"
| "describe GetTrendingMoviesWeek page =
     mk (''trending_movies_week_'' @ showInt page) Movie ''/trending/movie/week'' [(''page'', num page)]"
| "describe GetTrendingSeriesDay page =
     mk (''trending_series_day_'' @ showInt page) Series ''/trending/tv/day'' [(''page'', num page)]"
| "describe GetTrendingSeriesWeek page =
     mk (''trending_series_week_'' @ showInt page) Series ''/trending/tv/week'' [(''page'', num page)]"
| "describe GetTopRatedMovies page =
     mk (''top_rated_movies_'' @ showInt page) Movie ''/movie/top_rated'' [(''page'', num page)]"
| "describe GetTopRatedSeries page =
     mk (''top_rated_series_'' @ showInt page) Series ''/tv/top_rated'' [(''page'', num page)]"
| "describe GetPopularMovies page =
     mk (''popular_movies_'' @ showInt page) Movie ''/movie/popular'' [(''page'', num page)]"
| "describe GetHiddenGems page =
     mk (''hidden_gems_'' @ showInt page) Movie ''/discover/movie''
       [(''page'', num page), (''sort_by'', PValue ''vote_average.desc''),
        (''vote_count.gte'', num 100), (''vote_count.lte'', num 1000),
        (''vote_average.gte'', PValue ''7.5'')]"
| "describe GetNowPlayingMovies page =
     mk (''now_playing_'' @ showInt page) Movie ''/movie/now_playing''
       [(''page'', num page), (''region'', PValue ''FR'')]"
| "describe GetUpcomingMovies page =
     mk (''upcoming_'' @ showInt page) Movie ''/movie/upcoming''
       [(''page'', num page), (''region'', PValue ''FR'')]"
| "describe (GetMoviesByGenre genreId) page =
     mk (''movies_genre_'' @ showInt genreId @ ''_'' @ showInt page) Movie ''/discover/movie''
       [(''page'', num page), (''with_genres'', num genreId),
        (''sort_by'', PValue ''popularity.desc''), (''vote_count.gte'', num 50)]"
| "describe (GetSeriesByGenre genreId) page =
     mk (''series_genre_'' @ showInt genreId @ ''_'' @ showInt page) Series ''/discover/tv''
       [(''page'', num page), (''with_genres'', num genreId),
        (''sort_by'', PValue ''popularity.desc''), (''vote_count.gte'', num 50)]"
| "describe GetMiniSeries page =
     mk (''miniseries_'' @ showInt page) Series ''/discover/tv''
       [(''page'', num page), (''with_keywords'', num 11162),
        (''sort_by'', PValue ''vote_average.desc''), (''vote_count.gte'', num 100)]"
| "describe GetKDramas page =
     mk (''kdramas_'' @ showInt page) Series ''/discover/tv''
       [(''page'', num page), (''with_origin_country'', PValue ''KR''),
        (''sort_by'', PValue ''vote_average.desc''), (''vote_count.gte'', num 100)]"
| "describe GetAnime page =
     mk (''anime_'' @ showInt page) Series ''/discover/tv''
       [(''page'', num page), (''with_genres'', num 16), (''with_origin_country'', PValue ''JP''),
        (''sort_by'', PValue ''vote_average.desc''), (''vote_count.gte'', num 100)]"
| "describe GetDocuSeries page =
     mk (''docuseries_'' @ showInt page) Series ''/discover/tv''
       [(''page'', num page), (''with_genres'', num 99),
        (''sort_by'', PValue ''vote_average.desc''), (''vote_count.gte'', num 50)]"
| "describe (GetMoviesByProvider providerId region) page =
     mk (''movies_provider_'' @ showInt providerId @ ''_'' @ region @ ''_'' @ showInt page)
       Movie ''/discover/movie''
       [(''page'', num page), (''with_watch_providers'', num providerId),
        (''watch_region'', PValue region), (''sort_by'', PValue ''popularity.desc'')]"
| "describe (GetSeriesByProvider providerId region) page =
     mk (''series_provider_'' @ showInt providerId @ ''_'' @ region @ ''_'' @ showInt page)
       Series ''/discover/tv''
       [(''page'', num page), (''with_watch_providers'', num providerId),
        (''watch_region'', PValue region), (''sort_by'', PValue ''popularity.desc'')]"
| "describe (GetMoviesByCountry countryCode) page =
     mk (''movies_country_'' @ countryCode @ ''_'' @ showInt page) Movie ''/discover/movie''
       [(''page'', num page), (''with_origin_country'', PValue countryCode),
        (''sort_by'', PValue ''popularity.desc''), (''vote_count.gte'', num 30)]"
| "describe GetJDrama page =
     mk (''jdrama_'' @ showInt page) Series ''/discover/tv''
       [(''page'', num page), (''with_origin_country'', PValue ''JP''), (''without_genres'', num 16),
        (''sort_by'', PValue ''vote_average.desc''), (''vote_count.gte'', num 50)]"
| "describe GetAsianDrama page =
     mk (''asian_drama_'' @ showInt page) Series ''/discover/tv''
       [(''page'', num page), (''with_origin_country'', PValue ''CN|TW|TH''),
        (''sort_by'', PValue ''vote_average.desc''), (''vote_count.gte'', num 30)]"
| "describe GetChineseMovies page =
     mk (''chinese_movies_'' @ showInt page) Movie ''/discover/movie''
       [(''page'', num page), (''with_origin_country'', PValue ''CN''),
        (''sort_by'', PValue ''popularity.desc''), (''vote_count.gte'', num 30)]"
| "describe GetKoreanRomance page =
     mk (''korean_romance_'' @ showInt page) Series ''/discover/tv''
       [(''page'', num page), (''with_origin_country'', PValue ''KR''), (''with_genres'', num 18),
        (''with_keywords'', PValue ''9840''),
        (''sort_by'', PValue ''vote_average.desc''), (''vote_count.gte'', num 50)]"
| "describe GetCrimeMovies page =
     mk (''crime_movies_'' @ showInt page) Movie ''/discover/movie''
       [(''page'', num page), (''with_genres'', num 80),
        (''sort_by'', PValue ''popularity.desc''), (''vote_count.gte'', num 50)]"
| "describe GetCrimeSeries page =
     mk (''crime_series_'' @ showInt page) Series ''/discover/tv''
       [(''page'', num page), (''with_genres'', num 80),
        (''sort_by'', PValue ''popularity.desc''), (''vote_count.gte'', num 50)]"
| "describe GetClassicSeries page =
     mk (''classic_series_'' @ showInt page) Series ''/discover/tv''
       [(''page'', num page), (''first_air_date.lte'', PValue ''1999-12-31''),
        (''without_genres'', num 16),
        (''sort_by'', PValue ''vote_average.desc''), (''vote_count.gte'', num 100)]"
| "describe GetClassicMovies page =
     mk (''classic_movies_'' @ showInt page) Movie ''/discover/movie''
       [(''page'', num page), (''release_date.lte'', PValue ''1989-12-31''),
        (''without_genres'', num 16),
        (''sort_by'', PValue ''vote_average.desc''), (''vote_count.gte'', num 200)]"
| "describe (GetMoviesByKeyword keywordId) page =
     mk (''movies_keyword_'' @ showInt keywordId @ ''_'' @ showInt page) Movie ''/discover/movie''
       [(''page'', num page), (''with_keywords'', num keywordId),
        (''sort_by'', PValue ''popularity.desc'')]"
| "describe GetChristmasMovies page =
     mk (''christmas_'' @ showInt page) Movie ''/discover/movie''
       [(''page'', num page), (''with_keywords'', PValue ''207317|13082''),
        (''sort_by'', PValue ''popularity.desc'')]"
| "describe GetHalloweenMovies page =
     mk (''halloween_'' @ showInt page) Movie ''/discover/movie''
       [(''page'', num page), (''with_keywords'', PValue ''4565''), (''with_genres'', num 27),
        (''sort_by'', PValue ''popularity.desc'')]"
| "describe GetFeelGoodMovies page =
     mk (''feelgood_'' @ showInt page) Movie ''/discover/movie''
       [(''page'', num page), (''with_genres'', PValue ''35,10751''),
        (''vote_average.gte'', PValue ''6.5''), (''sort_by'', PValue ''popularity.desc'')]"
| "describe GetMindBendingMovies page =
     mk (''mindbending_'' @ showInt page) Movie ''/discover/movie''
       [(''page'', num page), (''with_keywords'', PValue ''4344|256741|310''),
        (''sort_by'', PValue ''vote_average.desc''), (''vote_count.gte'', num 100)]"
| "describe GetCultMovies page =
     mk (''cult_'' @ showInt page) Movie ''/discover/movie''
       [(''page'', num page), (''with_keywords'', PValue ''818''),
        (''sort_by'', PValue ''vote_count.desc'')]"
| "describe GetFamilyMovies page =
     mk (''family_'' @ showInt page) Movie ''/discover/movie''
       [(''page'', num page), (''with_genres'', num 10751),
        (''sort_by'', PValue ''popularity.desc''), (''vote_average.gte'', num 6)]"
| "describe GetOscarWinners page =
     mk (''oscars_'' @ showInt page) Movie ''/discover/movie''
       [(''page'', num page), (''sort_by'', PValue ''vote_average.desc''),
        (''vote_count.gte'', num 5000), (''vote_average.gte'', num 8)]"

text \<open>A named operation called with a page when the clock reads \<open>now\<close>.\<close>

definition catalogueFetch ::
  "upstream \<Rightarrow> int \<Rightarrow> tmdbCall \<Rightarrow> int \<Rightarrow> state \<Rightarrow> (error + meta list) \<times> state" where
  "catalogueFetch up now c page st =
     cached now (op_key (describe c page))
       (listing (op_kind (describe c page)) up (op_endpoint (describe c page))
          (op_params (describe c page)))
       st"

definition getMoviesByGenre ::
  "upstream \<Rightarrow> int \<Rightarrow> int \<Rightarrow> int \<Rightarrow> state \<Rightarrow> (error + meta list) \<times> state" where
  "getMoviesByGenre up now genreId page st =
     cached now (''movies_genre_'' @ showInt genreId @ ''_'' @ showInt page)
       (listing Movie up ''/discover/movie''
          [(''page'', num page), (''with_genres'', num genreId),
           (''sort_by'', PValue ''popularity.desc''), (''vote_count.gte'', num 50)])
       st"

text \<open>The two search operations call \<open>_fetch\<close> and the formatter directly.\<close>

definition searchMovies ::
  "upstream \<Rightarrow> param \<Rightarrow> int \<Rightarrow> state \<Rightarrow> (error + meta list) \<times> state" where
  "searchMovies up query page st =
     listing Movie up ''/search/movie'' [(''query'', query), (''page'', num page)] st"

definition searchSeries ::
  "upstream \<Rightarrow> param \<Rightarrow> int \<Rightarrow> state \<Rightarrow> (error + meta list) \<times> state" where
  "searchSeries up query page st =
     listing Series up ''/search/tv'' [(''query'', query), (''page'', num page)] st"

section \<open>The catalogue registry and the dispatch handler\<close>

text \<open>
  A registry entry: its type and the client call its \<open>fetch\<close> closure makes. The display
  names are not ASCII and are used for the manifest and the log only; they are left out.
\<close>

record catalog =
  cat_type :: string
  cat_fetch :: tmdbCall

definition CATALOGS :: "(string \<times> catalog) list" where
  "CATALOGS =
    [(''kdrama'', \<lparr>cat_type = ''series'', cat_fetch = GetKDramas\<rparr>),
     (''korean-romance'', \<lparr>cat_type = ''series'', cat_fetch = GetKoreanRomance\<rparr>),
     (''korean-movies'', \<lparr>cat_type = ''movie'', cat_fetch = GetMoviesByCountry ''KR''\<rparr>),
     (''jdrama'', \<lparr>cat_type = ''series'', cat_fetch = GetJDrama\<rparr>),
     (''japanese-movies'', \<lparr>cat_type = ''movie'', cat_fetch = GetMoviesByCountry ''JP''\<rparr>),
     (''asian-drama'', \<lparr>cat_type = ''series'', cat_fetch = GetAsianDrama\<rparr>),
     (''chinese-movies'', \<lparr>cat_type = ''movie'', cat_fetch = GetChineseMovies\<rparr>),
     (''thriller-movies'', \<lparr>cat_type = ''movie'', cat_fetch = GetMoviesByGenre 53\<rparr>),
     (''thriller-series'', \<lparr>cat_type = ''series'', cat_fetch = GetSeriesByGenre 80\<rparr>),
     (''crime-movies'', \<lparr>cat_type = ''movie'', cat_fetch = GetCrimeMovies\<rparr>),
     (''crime-series'', \<lparr>cat_type = ''series'', cat_fetch = GetCrimeSeries\<rparr>),
     (''classic-movies'', \<lparr>cat_type = ''movie'', cat_fetch = GetClassicMovies\<rparr>),
     (''classic-series'', \<lparr>cat_type = ''series'', cat_fetch = GetClassicSeries\<rparr>),
     (''miniseries'', \<lparr>cat_type = ''series'', cat_fetch = GetMiniSeries\<rparr>),
     (''romance-movies'', \<lparr>cat_type = ''movie'', cat_fetch = GetMoviesByGenre 10749\<rparr>),
     (''drama-movies'', \<lparr>cat_type = ''movie'', cat_fetch = GetMoviesByGenre 18\<rparr>),
     (''drama-series'', \<lparr>cat_type = ''series'', cat_fetch = GetSeriesByGenre 18\<rparr>),
     (''top-movies'', \<lparr>cat_type = ''movie'', cat_fetch = GetTopRatedMovies\<rparr>),
     (''top-series'', \<lparr>cat_type = ''series'', cat_fetch = GetTopRatedSeries\<rparr>),
     (''netflix-movies'', \<lparr>cat_type = ''movie'', cat_fetch = GetMoviesByProvider 8 ''FR''\<rparr>),
     (''netflix-series'', \<lparr>cat_type = ''series'', cat_fetch = GetSeriesByProvider 8 ''FR''\<rparr>),
     (''prime-movies'', \<lparr>cat_type = ''movie'', cat_fetch = GetMoviesByProvider 119 ''FR''\<rparr>),
     (''prime-series'', \<lparr>cat_type = ''series'', cat_fetch = GetSeriesByProvider 119 ''FR''\<rparr>),
     (''disney-movies'', \<lparr>cat_type = ''movie'', cat_fetch = GetMoviesByProvider 337 ''FR''\<rparr>),
     (''disney-series'', \<lparr>cat_type = ''series'', cat_fetch = GetSeriesByProvider 337 ''FR''\<rparr>),
     (''canal-movies'', \<lparr>cat_type = ''movie'', cat_fetch = GetMoviesByProvider 381 ''FR''\<rparr>),
     (''canal-series'', \<lparr>cat_type = ''series'', cat_fetch = GetSeriesByProvider 381 ''FR''\<rparr>)]"

text \<open>
  \<open>CATALOGS[catalogId]\<close> on a plain object: an entry of the table, a property that every
  object inherits (a function or an object, so truthy, and without a \<open>fetch\<close>), or
  \<open>undefined\<close>.
\<close>

datatype property = Own catalog | Inherited | Absent

definition objectPrototype :: "string list" where
  "objectPrototype =
    [''constructor'', ''__proto__'', ''hasOwnProperty'', ''isPrototypeOf'',
     ''propertyIsEnumerable'', ''toLocaleString'', ''toString'', ''valueOf'',
     ''__defineGetter__'', ''__defineSetter__'', ''__lookupGetter__'', ''__lookupSetter__'']"

definition CATALOGS_get :: "string \<Rightarrow> property" where
  "CATALOGS_get k =
     (case map_of CATALOGS k of
        Some c \<Rightarrow> Own c
      | None \<Rightarrow> if k \<in> set objectPrototype then Inherited else Absent)"

text \<open>\<open>s.replace(pat, rep)\<close> with a string pattern: the first occurrence is replaced.\<close>

fun replaceFirst :: "string \<Rightarrow> string \<Rightarrow> string \<Rightarrow> string" where
  "replaceFirst pat rep [] = (if pat = [] then rep else [])"
| "replaceFirst pat rep (c # cs) =
     (if take (length pat) (c # cs) = pat then rep @ drop (length pat) (c # cs)
      else c # replaceFirst pat rep cs)"

text \<open>
  The values the \<open>skip\<close> field of a request can hold: \<open>undefined\<close>, a string (its code
  units) or an integer number.
\<close>

datatype jsval = Undefined | Str "nat list" | Num int

text \<open>
  \<open>String(v)\<close>, the first step of \<open>parseInt\<close>. An integer up to \<open>2^53\<close> in magnitude is a
  double and prints as its decimal digits. The printing of larger numbers (the shortest
  digits that read back as the same double, in exponent form from \<open>10^21\<close> on) is not
  modelled: \<open>None\<close>.
\<close>

definition toString :: "jsval \<Rightarrow> nat list option" where
  "toString v =
     (case v of
        Undefined \<Rightarrow> Some (units ''undefined'')
      | Str s \<Rightarrow> Some s
      | Num n \<Rightarrow> if \<bar>n\<bar> \<le> 2 ^ 53 then Some (units (showInt n)) else None)"

text \<open>
  The code units that \<open>parseInt\<close> strips from the start of its input: the white space and
  line terminator characters of the language (TAB, LF, VT, FF, CR, SP, NBSP, the other
  space separators of Unicode, LS, PS and ZWNBSP).
\<close>

definition isWhiteSpace :: "nat \<Rightarrow> bool" where
  "isWhiteSpace c =
     (c \<in> set [0x09, 0x0A, 0x0B, 0x0C, 0x0D, 0x20, 0xA0, 0x1680, 0x2028, 0x2029, 0x202F,
               0x205F, 0x3000, 0xFEFF]
      \<or> (0x2000 \<le> c \<and> c \<le> 0x200A))"

definition digitValue :: "nat \<Rightarrow> nat option" where
  "digitValue n =
     (if 48 \<le> n \<and> n \<le> 57 then Some (n - 48)
      else if 97 \<le> n \<and> n \<le> 122 then Some (n - 87)
      else if 65 \<le> n \<and> n \<le> 90 then Some (n - 55)
      else None)"

definition isRadixDigit :: "nat \<Rightarrow> nat \<Rightarrow> bool" where
  "isRadixDigit R c = (case digitValue c of None \<Rightarrow> False | Some d \<Rightarrow> d < R)"

text \<open>
  \<open>parseInt(s)\<close> without a radix: leading white space is skipped, a sign is read, a
  \<open>0x\<close> prefix selects radix 16, and the longest run of digits denotes an integer, which
  is rounded to a double. \<open>NaN\<close>: there is no digit to read. \<open>Beyond\<close>: the digits denote
  \<open>10^20\<close> or more. There the language no longer fixes the result (an implementation may
  replace every decimal digit after the 20th by \<open>0\<close>), and the result may be \<open>Infinity\<close>;
  such numbers are outside the model.
\<close>

datatype parsed = NaN | Value int | Beyond

definition parseInt :: "nat list \<Rightarrow> parsed" where
  "parseInt inputString =
     (let S = dropWhile isWhiteSpace inputString;
          sign = (if S \<noteq> [] \<and> hd S = 0x2D then - 1 else 1);
          S1 = (if S \<noteq> [] \<and> (hd S = 0x2B \<or> hd S = 0x2D) then tl S else S);
          hex = (take 2 S1 = units ''0x'' \<or> take 2 S1 = units ''0X'');
          R = (if hex then 16 else 10);
          S2 = (if hex then drop 2 S1 else S1);
          Z = takeWhile (isRadixDigit R) S2;
          mathInt = foldl (\<lambda>a c. a * int R + int (the (digitValue c))) 0 Z
      in if Z = [] then NaN
         else if 10 ^ 20 \<le> mathInt then Beyond
         else Value (sign * \<lfloor>roundDouble (of_int mathInt)\<rfloor>))"

record extra =
  skip :: jsval

record request =
  req_type :: string
  req_id :: string
  req_extra :: "extra option"

text \<open>
  \<open>parseInt(extra?.skip) || 0\<close>: \<open>NaN\<close> and \<open>0\<close> are falsy. \<open>None\<close> is a number outside the
  model.
\<close>

definition skipOf :: "extra option \<Rightarrow> int option" where
  "skipOf e =
     (case toString (case e of None \<Rightarrow> Undefined | Some x \<Rightarrow> skip x) of
        None \<Rightarrow> None
      | Some s \<Rightarrow>
          (case parseInt s of
             NaN \<Rightarrow> Some 0
           | Value n \<Rightarrow> Some (if n = 0 then 0 else n)
           | Beyond \<Rightarrow> None))"

text \<open>
  \<open>Math.floor(skip / 20) + 1\<close> on doubles: the quotient is rounded to a double, and so
  is the sum.
\<close>

definition pageNumber :: "int \<Rightarrow> int" where
  "pageNumber sk = \<lfloor>roundDouble (of_int \<lfloor>roundDouble (of_int sk / 20)\<rfloor> + 1)\<rfloor>"

definition pageOf :: "int option \<Rightarrow> int option" where
  "pageOf sk = map_option pageNumber sk"

text \<open>A response object, as the list of its properties.\<close>

type_synonym response = "(string \<times> meta list) list"

text \<open>
  The catalogue handler. The client is a parameter: \<open>tmdb c page\<close> runs the call \<open>c\<close>
  with the page on the state (\<open>None\<close> is a page outside the model). Inside \<open>try\<close>,
  calling the \<open>fetch\<close> of an inherited property throws; \<open>respond\<close> is the end of the \<open>try\<close>
  block and its \<open>catch\<close>, which turns every failure into an empty list.
\<close>

definition respond :: "(error + meta list) \<times> 's \<Rightarrow> response \<times> 's" where
  "respond r =
     (case r of
        (Inr rs, st') \<Rightarrow> ([(''metas'', rs)], st')
      | (Inl err, st') \<Rightarrow> ([(''metas'', [])], st'))"

definition catalogHandler ::
  "(tmdbCall \<Rightarrow> int option \<Rightarrow> 's \<Rightarrow> (error + meta list) \<times> 's) \<Rightarrow> request \<Rightarrow> 's \<Rightarrow> response \<times> 's" where
  "catalogHandler tmdb req st =
     (let catalogId = replaceFirst ''cataloog-bp-'' '''' (req_id req);
          c = CATALOGS_get catalogId
      in if c = Absent then ([(''metas'', [])], st)
         else
           (let sk = skipOf (req_extra req);
                page = pageOf sk
            in respond (case c of Own entry \<Rightarrow> tmdb (cat_fetch entry) page st
                                 | _ \<Rightarrow> (Inl TypeError, st))))"

text \<open>
  The handler on the client of this repository, called when the clock reads \<open>now\<close>. The
  operations of the client are modelled for the pages that are integers of the model;
  \<open>beyond c\<close> stands for the operation \<open>c\<close> called with any other page.
\<close>

definition serve ::
  "upstream \<Rightarrow> int \<Rightarrow> (tmdbCall \<Rightarrow> state \<Rightarrow> (error + meta list) \<times> state) \<Rightarrow> request \<Rightarrow> state
     \<Rightarrow> response \<times> state" where
  "serve up now beyond req st =
     catalogHandler
       (\<lambda>c page s. case page of Some n \<Rightarrow> catalogueFetch up now c n s | None \<Rightarrow> beyond c s)
       req st"

section \<open>Runs of calls\<close>

text \<open>The resolver of the specification: \<open>resolve(kind, upstreamId)\<close>, one of the two of the client.\<close>

definition resolve :: "kind \<Rightarrow> upstream \<Rightarrow> int \<Rightarrow> state \<Rightarrow> string option \<times> state" where
  "resolve kd up tmdbId st =
     (case kd of Movie \<Rightarrow> getMovieImdbId up tmdbId st | Series \<Rightarrow> getSeriesImdbId up tmdbId st)"

definition imdbKey :: "kind \<Rightarrow> int \<Rightarrow> string" where
  "imdbKey kd tmdbId =
     (case kd of Movie \<Rightarrow> ''movie_'' @ showInt tmdbId | Series \<Rightarrow> ''series_'' @ showInt tmdbId)"

definition externalIdsEndpoint :: "kind \<Rightarrow> int \<Rightarrow> string" where
  "externalIdsEndpoint kd tmdbId =
     (case kd of Movie \<Rightarrow> ''/movie/'' @ showInt tmdbId @ ''/external_ids''
               | Series \<Rightarrow> ''/tv/'' @ showInt tmdbId @ ''/external_ids'')"

text \<open>
  The calls a user of the client can make, and a sequence of them, each awaited before
  the next starts and each with the upstream behaviour of its moment. \<open>Fetch now c page\<close>
  is the named operation \<open>c\<close> called with \<open>page\<close> when the clock reads \<open>now\<close>.
\<close>

datatype clientCall =
    Resolve kind int
  | Fetch int tmdbCall int
  | SearchMovies param int
  | SearchSeries param int

fun runCall :: "upstream \<Rightarrow> clientCall \<Rightarrow> state \<Rightarrow> state" where
  "runCall up (Resolve kd tmdbId) st = snd (resolve kd up tmdbId st)"
| "runCall up (Fetch now c page) st = snd (catalogueFetch up now c page st)"
| "runCall up (SearchMovies q page) st = snd (searchMovies up q page st)"
| "runCall up (SearchSeries q page) st = snd (searchSeries up q page st)"

fun runMany :: "(upstream \<times> clientCall) list \<Rightarrow> state \<Rightarrow> state" where
  "runMany [] st = st"
| "runMany ((up, c) # cs) st = runMany cs (runCall up c st)"

text \<open>
  A sequence of calls of \<open>cached\<close>, each awaited before the next starts. A call reads the
  clock when it begins (\<open>c_now\<close>); \<open>c_done\<close> is what the clock reads when its \<open>fn\<close> returns,
  if \<open>fn\<close> is run. Beside the state, the run records for every key the clock reading at
  which \<open>fn\<close> last returned successfully for it, and the value it returned.
\<close>

record call =
  c_now :: int
  c_key :: string
  c_fn :: "state \<Rightarrow> (error + meta list) \<times> state"
  c_done :: int

definition computed :: "call \<Rightarrow> state \<Rightarrow> bool" where
  "computed c st =
     (cached_hit (c_now c) (c_key c) (cache st) = None \<and> \<not> isl (fst (c_fn c st)))"

type_synonym history = "string \<rightharpoonup> int \<times> meta list"

definition callStep :: "call \<Rightarrow> state \<times> history \<Rightarrow> state \<times> history" where
  "callStep c sr =
     (snd (cached (c_now c) (c_key c) (c_fn c) (fst sr)),
      if computed c (fst sr)
      then (snd sr)(c_key c \<mapsto> (c_done c, projr (fst (c_fn c (fst sr)))))
      else snd sr)"

fun runCalls :: "call list \<Rightarrow> state \<times> history \<Rightarrow> state \<times> history" where
  "runCalls [] sr = sr"
| "runCalls (c # cs) sr = runCalls cs (callStep c sr)"

text \<open>
  What the runs are about: \<open>fn\<close> leaves the response cache alone, as the body of every
  listing operation does, and the clock does not run backwards while \<open>fn\<close> runs.
\<close>

definition keepsCache :: "(state \<Rightarrow> (error + meta list) \<times> state) \<Rightarrow> bool" where
  "keepsCache fn = (\<forall>st. cache (snd (fn st)) = cache st)"

text \<open>
  A step that neither reads nor writes the response cache: run on a state with another
  cache, it gives the same result and the same state but for that cache.
\<close>

definition cacheFree :: "(state \<Rightarrow> 'a \<times> state) \<Rightarrow> bool" where
  "cacheFree f = (\<forall>st c. f (st\<lparr>cache := c\<rparr>) = (fst (f st), (snd (f st))\<lparr>cache := c\<rparr>))"

text \<open>A step that only adds to the log of requests.\<close>

definition appendsRequests :: "(state \<Rightarrow> 'a \<times> state) \<Rightarrow> bool" where
  "appendsRequests f = (\<forall>st. \<exists>more. requests (snd (f st)) = requests st @ more)"

definition wellTimed :: "call \<Rightarrow> bool" where
  "wellTimed c = (c_now c \<le> c_done c)"

section \<open>Sample inputs\<close>

text \<open>
  A fresh client, an upstream that answers every request with a cross-reference body,
  and a record with the fields the formatter reads.
\<close>

definition sampleUpstream :: upstream where
  "sampleUpstream n u =
     Response 200 (Some \<lparr>imdb_id = Some ''tt0133093'', results = None\<rparr>)"

definition sampleState :: state where
  "sampleState =
     \<lparr>apiKey = ''secret'', language = ''fr-FR'', imdbCache = Map.empty, cache = Map.empty,
      requests = []\<rparr>"

definition sampleRecord :: rawRecord where
  "sampleRecord =
     \<lparr>id_r = Some 603, title = Some ''The Matrix'', original_title = None,
      name_r = Some ''The Matrix'', original_name = None, overview = None,
      release_date = Some ''1989-12-31'', first_air_date = Some ''1989-12-31'',
      vote_average = Some (82 / 10), genre_ids = Some [53, 9999]\<rparr>"

definition sampleRequest :: "string \<Rightarrow> url" where
  "sampleRequest path =
     \<lparr>href = ''https://api.themoviedb.org/3'' @ path,
      searchParams = [(''api_key'', ''secret''), (''language'', ''fr-FR'')]\<rparr>"

text \<open>
  A client that only records the calls it gets, and a stand-in for the operations called
  with a page outside the model.
\<close>

definition recordCall ::
  "tmdbCall \<Rightarrow> int option \<Rightarrow> (tmdbCall \<times> int option) list
     \<Rightarrow> (error + meta list) \<times> (tmdbCall \<times> int option) list" where
  "recordCall c page calls = (Inr [], calls @ [(c, page)])"

definition sampleBeyond :: "tmdbCall \<Rightarrow> state \<Rightarrow> (error + meta list) \<times> state" where
  "sampleBeyond c st = (Inl NetworkError, st)"

text \<open>A request for the thrillers with a given \<open>skip\<close>.\<close>

definition thrillersFrom :: "jsval \<Rightarrow> request" where
  "thrillersFrom v =
     \<lparr>req_type = ''movie'', req_id = ''cataloog-bp-thriller-movies'',
      req_extra = Some \<lparr>skip = v\<rparr>\<rparr>"

text \<open>An upstream that cannot be reached, and two requests without a \<open>skip\<close>.\<close>

definition failingUpstream :: upstream where
  "failingUpstream n u = Rejected"

definition unknownRequest :: request where
  "unknownRequest =
     \<lparr>req_type = ''movie'', req_id = ''cataloog-bp-unknown'', req_extra = None\<rparr>"

definition thrillerRequest :: request where
  "thrillerRequest =
     \<lparr>req_type = ''movie'', req_id = ''cataloog-bp-thriller-movies'', req_extra = None\<rparr>"

text \<open>
  An upstream that knows the external id of record 603, knows none for record 7, and
  answers every other request with a page of four entries: a full record, \<open>null\<close>, a
  record without an id, and record 7.
\<close>

definition samplePage :: "rawRecord option list" where
  "samplePage =
     [Some sampleRecord, None, Some (sampleRecord\<lparr>id_r := None\<rparr>),
      Some (sampleRecord\<lparr>id_r := Some 7\<rparr>)]"

definition pageUpstream :: upstream where
  "pageUpstream n u =
     (if href u = ''https://api.themoviedb.org/3/movie/603/external_ids''
      then Response 200 (Some \<lparr>imdb_id = Some ''tt0133093'', results = None\<rparr>)
      else if href u = ''https://api.themoviedb.org/3/movie/7/external_ids''
      then Response 200 (Some \<lparr>imdb_id = None, results = None\<rparr>)
      else Response 200 (Some \<lparr>imdb_id = None, results = Some samplePage\<rparr>))"

text \<open>The state a client is in after the sample page has been formatted.\<close>

definition pageState :: "url \<Rightarrow> state" where
  "pageState u =
     sampleState\<lparr>requests :=
         [u, sampleRequest ''/movie/603/external_ids'', sampleRequest ''/movie/7/external_ids''],
       imdbCache := [''movie_603'' \<mapsto> Some ''tt0133093'', ''movie_7'' \<mapsto> None]\<rparr>"

text \<open>A client whose response cache holds an empty first page of thrillers, stored at time 0.\<close>

definition cachedState :: state where
  "cachedState =
     sampleState\<lparr>cache := [''movies_genre_53_1'' \<mapsto> \<lparr>data = [], timestamp = 0\<rparr>]\<rparr>"

text \<open>A client whose response cache holds the formatted sample page, stored at time 0.\<close>

definition warmState :: state where
  "warmState =
     sampleState\<lparr>cache :=
       [''movies_genre_53_1'' \<mapsto>
          \<lparr>data = [movieMeta sampleRecord ''tt0133093''], timestamp = 0\<rparr>]\<rparr>"

text \<open>
  The link between the cache and the record of a run: every entry of the cache holds
  the value that \<open>fn\<close> last returned for its key, and its timestamp is not later than the
  moment of that return.
\<close>

definition tracked :: "state \<times> history \<Rightarrow> bool" where
  "tracked sr =
     (\<forall>k e. cache (fst sr) k = Some e \<longrightarrow>
        (\<exists>d. snd sr k = Some (d, data e) \<and> timestamp e \<le> d))"

text \<open>One call of a listing under the key of the first page of thrillers, begun at 0 and done at 250.\<close>

definition sampleCall :: call where
  "sampleCall =
     \<lparr>c_now = 0, c_key = ''movies_genre_53_1'',
      c_fn = listing Movie pageUpstream ''/discover/movie'' [], c_done = 250\<rparr>"

section \<open>Properties\<close>

subsection \<open>Rounding to a double\<close>

lemma powi_nonneg: "0 \<le> e \<Longrightarrow> (2::rat) powi e = 2 ^ nat e"
  by (simp add: power_int_def)

lemma powi_neg: "e \<le> 0 \<Longrightarrow> (2::rat) powi e = 1 / 2 ^ nat (- e)"
  by (cases "e = 0") (simp_all add: power_int_def field_simps)

lemma ilog2_bounds:
  assumes "0 < x"
  shows "2 powi (ilog2 x) \<le> x" and "x < 2 powi (ilog2 x + 1)"
proof -
  show "2 powi (ilog2 x) \<le> x"
  proof (cases "1 \<le> x")
    case True
    let ?k = "\<lfloor>x\<rfloor>"
    have k: "0 < ?k" using True by simp
    have b: "1 \<le> bitlen ?k" using k bitlen_eq_zero_iff [of ?k] bitlen_nonneg [of ?k] by linarith
    have "(2::int) ^ nat (bitlen ?k - 1) \<le> ?k" using bitlen_bounds [OF k] by simp
    then have "(of_int ((2::int) ^ nat (bitlen ?k - 1)) :: rat) \<le> of_int ?k"
      by (simp only: of_int_le_iff)
    also have "\<dots> \<le> x" by simp
    finally have "(2::rat) ^ nat (bitlen ?k - 1) \<le> x" by simp
    then show ?thesis using True b by (simp add: ilog2_def powi_nonneg)
  next
    case False
    let ?y = "1 / x"
    let ?j = "\<lceil>?y\<rceil> - 1"
    have y: "1 < ?y" using False assms by (simp add: field_simps)
    have j: "0 < ?j" using y by (simp add: less_ceiling_iff)
    have "?y \<le> of_int \<lceil>?y\<rceil>" by (rule le_of_int_ceiling)
    also have "\<dots> = of_int (?j + 1)" by simp
    also have "\<dots> \<le> of_int ((2::int) ^ nat (bitlen ?j))"
      using bitlen_bounds [OF j] by (simp only: of_int_le_iff) linarith
    finally have "?y \<le> 2 ^ nat (bitlen ?j)" by simp
    then have "1 / 2 ^ nat (bitlen ?j) \<le> x" using assms by (simp add: field_simps)
    then show ?thesis using False bitlen_nonneg [of ?j] by (simp add: ilog2_def powi_neg)
  qed
  show "x < 2 powi (ilog2 x + 1)"
  proof (cases "1 \<le> x")
    case True
    let ?k = "\<lfloor>x\<rfloor>"
    have k: "0 < ?k" using True by simp
    have b: "1 \<le> bitlen ?k" using k bitlen_eq_zero_iff [of ?k] bitlen_nonneg [of ?k] by linarith
    have "?k + 1 \<le> (2::int) ^ nat (bitlen ?k)" using bitlen_bounds [OF k] by linarith
    then have "(of_int (?k + 1) :: rat) \<le> of_int ((2::int) ^ nat (bitlen ?k))"
      by (simp only: of_int_le_iff)
    moreover have "x < of_int (?k + 1)" by simp linarith
    ultimately have "x < 2 ^ nat (bitlen ?k)" by simp
    then show ?thesis using True b by (simp add: ilog2_def powi_nonneg)
  next
    case False
    let ?y = "1 / x"
    let ?j = "\<lceil>?y\<rceil> - 1"
    have y: "1 < ?y" using False assms by (simp add: field_simps)
    have j: "0 < ?j" using y by (simp add: less_ceiling_iff)
    have b: "1 \<le> bitlen ?j" using j bitlen_eq_zero_iff [of ?j] bitlen_nonneg [of ?j] by linarith
    have "(of_int ((2::int) ^ nat (bitlen ?j - 1)) :: rat) \<le> of_int ?j"
      using bitlen_bounds [OF j] by (simp only: of_int_le_iff)
    also have "\<dots> < ?y" using ceiling_correct [of ?y] by simp
    finally have "2 ^ nat (bitlen ?j - 1) < ?y" by simp
    then have "x < 1 / 2 ^ nat (bitlen ?j - 1)" using assms by (simp add: field_simps)
    moreover have "nat (- (1 - bitlen ?j)) = nat (bitlen ?j - 1)" by simp
    ultimately show ?thesis using False b powi_neg [of "1 - bitlen ?j"] by (simp add: ilog2_def)
  qed
qed

lemma roundHalfEven_near: "\<bar>of_int (roundHalfEven m) - m\<bar> \<le> 1 / 2"
proof -
  have "of_int \<lfloor>m\<rfloor> \<le> m" "m < of_int \<lfloor>m\<rfloor> + 1" by linarith+
  then show ?thesis by (auto simp: roundHalfEven_def Let_def)
qed

lemma roundHalfEven_of_int: "roundHalfEven (of_int k) = k"
  by (simp add: roundHalfEven_def)

lemma roundHalfEven_pos: "1 \<le> m \<Longrightarrow> 1 \<le> roundHalfEven m"
proof -
  assume "1 \<le> m"
  then have "1 \<le> \<lfloor>m\<rfloor>" by simp
  then show ?thesis by (auto simp: roundHalfEven_def Let_def)
qed


lemma ilog2_less:
  assumes "0 < x" and "x < 2 powi n"
  shows "ilog2 x < n"
proof (rule ccontr)
  assume "\<not> ilog2 x < n"
  then have "n \<le> ilog2 x" by simp
  then have "(2::rat) powi n \<le> 2 powi (ilog2 x)" by (intro power_int_increasing) simp_all
  also have "\<dots> \<le> x" using assms(1) by (rule ilog2_bounds(1))
  finally show False using assms(2) by simp
qed

lemma ilog2_nonneg:
  assumes "1 \<le> x"
  shows "0 \<le> ilog2 x"
proof -
  have "0 < \<lfloor>x\<rfloor>" using assms by simp
  then have "1 \<le> bitlen \<lfloor>x\<rfloor>"
    using bitlen_eq_zero_iff [of "\<lfloor>x\<rfloor>"] bitlen_nonneg [of "\<lfloor>x\<rfloor>"] by linarith
  then show ?thesis using assms by (simp add: ilog2_def)
qed

lemma roundDouble_abs:
  assumes "x \<noteq> 0"
  shows "\<bar>roundDouble x - x\<bar>
         = \<bar>of_int (roundHalfEven (\<bar>x\<bar> / 2 powi (ilog2 \<bar>x\<bar> - 52))) * 2 powi (ilog2 \<bar>x\<bar> - 52) - \<bar>x\<bar>\<bar>"
proof (cases "0 < x")
  case True
  then show ?thesis by (simp add: roundDouble_def Let_def)
next
  case False
  then have neg: "x < 0" using assms by simp
  have "\<bar>- a - x\<bar> = \<bar>a - (- x)\<bar>" for a :: rat by linarith
  then show ?thesis using neg by (simp add: roundDouble_def Let_def)
qed

lemma roundDouble_near:
  assumes "x \<noteq> 0" and "\<bar>x\<bar> < 2 ^ 49"
  shows "\<bar>roundDouble x - x\<bar> \<le> 1 / 32"
proof -
  let ?a = "\<bar>x\<bar>"
  let ?u = "(2::rat) powi (ilog2 ?a - 52)"
  let ?r = "roundHalfEven (?a / ?u)"
  have a: "0 < ?a" using assms(1) by simp
  have "?a < 2 powi 49" using assms(2) by simp
  then have "ilog2 ?a < 49" using a by (rule ilog2_less [rotated])
  then have "ilog2 ?a - 52 \<le> - 4" by simp
  then have "?u \<le> 2 powi (- 4)" by (intro power_int_increasing) simp_all
  then have u16: "?u \<le> 1 / 16" by (simp add: power_int_minus)
  have u0: "0 < ?u" by (simp add: zero_less_power_int)
  have "\<bar>of_int ?r - ?a / ?u\<bar> \<le> 1 / 2" by (rule roundHalfEven_near)
  then have "\<bar>of_int ?r - ?a / ?u\<bar> * ?u \<le> 1 / 2 * ?u"
    by (rule mult_right_mono) (simp add: less_imp_le [OF u0])
  moreover have "\<bar>of_int ?r - ?a / ?u\<bar> * ?u = \<bar>of_int ?r * ?u - ?a\<bar>"
  proof -
    have "\<bar>of_int ?r - ?a / ?u\<bar> * ?u = \<bar>(of_int ?r - ?a / ?u) * ?u\<bar>"
      using u0 by (simp add: abs_mult)
    also have "(of_int ?r - ?a / ?u) * ?u = of_int ?r * ?u - ?a"
      using u0 by (simp add: field_simps)
    finally show ?thesis .
  qed
  ultimately have "\<bar>of_int ?r * ?u - ?a\<bar> \<le> 1 / 2 * ?u" by simp
  also have "\<dots> \<le> 1 / 32" using u16 by simp
  finally show ?thesis using roundDouble_abs [OF assms(1)] by simp
qed

lemma roundDouble_exact_pos:
  assumes "0 < n" and "n \<le> 2 ^ 53"
  shows "roundDouble (of_int n) = of_int n"
proof -
  let ?a = "of_int n :: rat"
  let ?e = "ilog2 ?a"
  have a1: "1 \<le> ?a" using assms(1) by simp
  have a0: "0 < ?a" using assms(1) by simp
  have e0: "0 \<le> ?e" using a1 by (rule ilog2_nonneg)
  have "?a < 2 powi 54" 
  proof -
    have "n < 2 ^ 54" using assms(2) by simp
    then have "?a < of_int (2 ^ 54)" by (simp only: of_int_less_iff)
    then show ?thesis by simp
  qed
  then have "?e < 54" using a0 by (rule ilog2_less [rotated])
  then have e53: "?e \<le> 53" by simp
  have r: "of_int (roundHalfEven (?a / 2 powi (?e - 52))) * 2 powi (?e - 52) = ?a"
  proof (cases "?e \<le> 52")
    case True
    have "?a / 2 powi (?e - 52) = ?a * 2 powi (52 - ?e)"
      using power_int_minus [of "2::rat" "?e - 52"] by (simp add: field_simps)
    also have "\<dots> = ?a * 2 ^ nat (52 - ?e)" using True by (simp add: powi_nonneg)
    also have "\<dots> = of_int (n * 2 ^ nat (52 - ?e))" by simp
    finally have "roundHalfEven (?a / 2 powi (?e - 52)) = n * 2 ^ nat (52 - ?e)"
      by (simp only: roundHalfEven_of_int)
    moreover have "(2::rat) ^ nat (52 - ?e) * 2 powi (?e - 52) = 1"
    proof -
      have "(2::rat) ^ nat (52 - ?e) = 2 powi (52 - ?e)" using True by (simp add: powi_nonneg)
      then have "(2::rat) ^ nat (52 - ?e) * 2 powi (?e - 52) = 2 powi ((52 - ?e) + (?e - 52))"
        by (simp only: power_int_add [of "2::rat", simplified])
      then show ?thesis by simp
    qed
    ultimately show ?thesis by (simp add: mult.assoc)
  next
    case False
    then have e: "?e = 53" using e53 by simp
    have "2 powi 53 \<le> ?a" using ilog2_bounds(1) [OF a0] e by simp
    moreover have "?a \<le> of_int (2 ^ 53)" using assms(2) by (simp only: of_int_le_iff)
    ultimately have a: "?a = 2 ^ 53" by simp
    have "?a / 2 powi (?e - 52) = of_int (2 ^ 52)" using a e by simp
    then have "roundHalfEven (?a / 2 powi (?e - 52)) = 2 ^ 52" by (simp only: roundHalfEven_of_int)
    then show ?thesis using a e by simp
  qed
  show ?thesis using assms(1) r by (simp add: roundDouble_def Let_def)
qed

lemma roundDouble_minus: "roundDouble (- x) = - roundDouble x"
  by (simp add: roundDouble_def Let_def)

lemma roundDouble_exact:
  assumes "\<bar>n\<bar> \<le> 2 ^ 53"
  shows "roundDouble (of_int n) = of_int n"
proof -
  consider "n = 0" | "0 < n" | "n < 0" by linarith
  then show ?thesis
  proof cases
    case 1
    then show ?thesis by (simp add: roundDouble_def)
  next
    case 2
    then show ?thesis using assms by (intro roundDouble_exact_pos) simp_all
  next
    case 3
    then have "roundDouble (of_int (- n)) = of_int (- n)"
      using assms by (intro roundDouble_exact_pos) simp_all
    then show ?thesis using roundDouble_minus [of "of_int n"] by simp
  qed
qed

lemma roundDouble_pos:
  assumes "0 < x"
  shows "0 < roundDouble x"
proof -
  let ?u = "(2::rat) powi (ilog2 x - 52)"
  have u0: "0 < ?u" by (simp add: zero_less_power_int)
  have "2 powi (ilog2 x) \<le> x" using assms by (rule ilog2_bounds(1))
  then have "2 powi (ilog2 x) / ?u \<le> x / ?u"
    by (rule divide_right_mono) (simp add: less_imp_le [OF u0])
  moreover have "2 powi (ilog2 x) / ?u = 2 powi 52"
    using power_int_diff [of "2::rat" "ilog2 x" "ilog2 x - 52"] by simp
  ultimately have "2 powi 52 \<le> x / ?u" by (simp only:)
  moreover have "(1::rat) \<le> 2 powi 52" by simp
  ultimately have "1 \<le> x / ?u" by (rule order_trans [rotated])
  then have "1 \<le> roundHalfEven (x / ?u)" by (rule roundHalfEven_pos)
  then have "0 < (of_int (roundHalfEven (x / ?u)) :: rat)" by simp
  then have "0 < of_int (roundHalfEven (x / ?u)) * ?u" using u0 by simp
  then show ?thesis using assms by (simp add: roundDouble_def Let_def)
qed

lemma roundDouble_neg: "x < 0 \<Longrightarrow> roundDouble x < 0"
  using roundDouble_pos [of "- x"] by (simp add: roundDouble_minus)

subsection \<open>Decimal strings\<close>

lemma digit_cases: "d < 10 \<Longrightarrow> d \<in> {0, 1, 2, 3, 4, 5, 6, 7, 8, 9::nat}"
  by auto

lemma of_char_digitChar: "d < 10 \<Longrightarrow> of_char (digitChar d) = 48 + d"
  using digit_cases [of d] by (auto simp: digitChar_def)

lemma digitValue_digitChar: "d < 10 \<Longrightarrow> digitValue (of_char (digitChar d)) = Some d"
  by (simp add: of_char_digitChar digitValue_def)

lemma units_append: "units (xs @ ys) = units xs @ units ys"
  by (simp add: units_def)

lemma showNat_digits: "set (units (showNat n)) \<subseteq> {48..57}"
proof (induction n rule: showNat.induct)
  case (1 n)
  show ?case
  proof (cases "n < 10")
    case True
    then show ?thesis by (subst showNat.simps) (simp add: units_def of_char_digitChar)
  next
    case False
    have "n mod 10 < 10" by simp
    then have "of_char (digitChar (n mod 10)) \<in> {48..57::nat}"
      by (simp add: of_char_digitChar del: mod_less_divisor)
    with False 1 show ?thesis by (subst showNat.simps) (simp add: units_def)
  qed
qed

lemma showNat_nonempty: "units (showNat n) \<noteq> []"
  by (subst showNat.simps) (simp add: units_def)

lemma showNat_value:
  "foldl (\<lambda>a c. a * 10 + int (the (digitValue c))) 0 (units (showNat n)) = int n"
proof (induction n rule: showNat.induct)
  case (1 n)
  show ?case
  proof (cases "n < 10")
    case True
    then show ?thesis by (subst showNat.simps) (simp add: units_def digitValue_digitChar)
  next
    case False
    have "int n = int (n div 10) * 10 + int (n mod 10)" by presburger
    with False 1 show ?thesis
      by (subst showNat.simps) (simp add: units_append, simp add: units_def digitValue_digitChar)
  qed
qed

lemma decimal_isRadixDigit: "c \<in> {48..57} \<Longrightarrow> isRadixDigit 10 c"
  by (auto simp: isRadixDigit_def digitValue_def)

lemma decimal_not_special:
  "c \<in> {48..57} \<Longrightarrow>
   \<not> isWhiteSpace c \<and> c \<noteq> 0x2D \<and> c \<noteq> 0x2B \<and> c \<noteq> 120 \<and> c \<noteq> 88"
  by (auto simp: isWhiteSpace_def)

text \<open>Reading back a run of decimal digits, with or without a minus sign.\<close>

lemma parseInt_digits:
  assumes "ds \<noteq> []" and "set ds \<subseteq> {48..57}"
    and "foldl (\<lambda>a c. a * 10 + int (the (digitValue c))) 0 ds = m" and "m < 10 ^ 20"
  shows "parseInt ds = Value \<lfloor>roundDouble (of_int m)\<rfloor>"
    and "parseInt (0x2D # ds) = Value (- \<lfloor>roundDouble (of_int m)\<rfloor>)"
proof -
  obtain d rest where ds: "ds = d # rest" using assms(1) by (cases ds) auto
  have d: "d \<in> {48..57}" using assms(2) ds by auto
  have nohex: "take 2 ds \<noteq> units ''0x'' \<and> take 2 ds \<noteq> units ''0X''"
  proof (cases rest)
    case Nil then show ?thesis using ds by (simp add: units_def)
  next
    case (Cons e r)
    then have "e \<in> {48..57}" using assms(2) ds by auto
    then have "e \<noteq> 120 \<and> e \<noteq> 88" using decimal_not_special by blast
    then show ?thesis using ds Cons by (simp add: units_def)
  qed
  have tw: "takeWhile (isRadixDigit 10) ds = ds"
    using assms(2) decimal_isRadixDigit by (simp add: takeWhile_eq_all_conv subset_iff)
  have dw: "dropWhile isWhiteSpace ds = ds"
    using decimal_not_special [OF d] ds by simp
  have hdd: "hd ds \<noteq> 0x2D \<and> hd ds \<noteq> 0x2B"
    using decimal_not_special [OF d] ds by simp
  have small: "\<not> (10 :: int) ^ 20 \<le> m" using assms(4) by simp
  show "parseInt ds = Value \<lfloor>roundDouble (of_int m)\<rfloor>"
    using assms(1) nohex dw hdd small by (simp add: parseInt_def Let_def tw assms(3))
  have nws: "\<not> isWhiteSpace 0x2D" by (simp add: isWhiteSpace_def)
  show "parseInt (0x2D # ds) = Value (- \<lfloor>roundDouble (of_int m)\<rfloor>)"
    using assms(1) nohex small by (simp add: parseInt_def Let_def tw assms(3) nws)
qed

lemma parseInt_showNat:
  assumes "int m \<le> 2 ^ 53"
  shows "parseInt (units (showNat m)) = Value (int m)"
    and "parseInt (0x2D # units (showNat m)) = Value (- int m)"
proof -
  have m: "int m < 10 ^ 20" using assms by simp
  have "roundDouble (of_int (int m)) = of_int (int m)"
    using assms by (intro roundDouble_exact) simp
  then have r: "\<lfloor>roundDouble (of_int (int m))\<rfloor> = int m" by (simp only: floor_of_int)
  show "parseInt (units (showNat m)) = Value (int m)"
    using parseInt_digits(1) [OF showNat_nonempty showNat_digits showNat_value m] r by simp
  show "parseInt (0x2D # units (showNat m)) = Value (- int m)"
    using parseInt_digits(2) [OF showNat_nonempty showNat_digits showNat_value m] r by simp
qed

lemma parseInt_showInt:
  assumes "\<bar>n\<bar> \<le> 2 ^ 53"
  shows "parseInt (units (showInt n)) = Value n"
proof (cases "n < 0")
  case True
  then have "int (nat (- n)) \<le> 2 ^ 53" using assms by simp
  then show ?thesis
    using parseInt_showNat(2) [of "nat (- n)"] True by (simp add: showInt_def units_def)
next
  case False
  then have "int (nat n) \<le> 2 ^ 53" using assms by simp
  then show ?thesis
    using parseInt_showNat(1) [of "nat n"] False by (simp add: showInt_def)
qed


lemma parseInt_undefined: "parseInt (units ''undefined'') = NaN"
  by (simp add: parseInt_def units_def isWhiteSpace_def isRadixDigit_def digitValue_def)

subsection \<open>The dispatch handler\<close>

lemma handler_registered:
  "CATALOGS_get (replaceFirst ''cataloog-bp-'' [] (req_id req)) = Own entry \<Longrightarrow>
   catalogHandler tmdb req st =
     respond (tmdb (cat_fetch entry) (pageOf (skipOf (req_extra req))) st)"
  by (simp add: catalogHandler_def Let_def)

lemma skipOf_parsed:
  "toString (case e of None \<Rightarrow> Undefined | Some x \<Rightarrow> skip x) = Some s \<Longrightarrow> parseInt s = Value n \<Longrightarrow>
   skipOf e = Some n"
  by (simp add: skipOf_def)


lemma thriller_movies_registered:
  "CATALOGS_get (replaceFirst ''cataloog-bp-'' [] ''cataloog-bp-thriller-movies'') =
   Own \<lparr>cat_type = ''movie'', cat_fetch = GetMoviesByGenre 53\<rparr>"
  by (simp add: CATALOGS_get_def CATALOGS_def)

lemma floor_roundDouble_div:
  assumes "\<bar>n\<bar> \<le> 2 ^ 53"
  shows "\<lfloor>roundDouble (of_int n / 20)\<rfloor> = n div 20"
proof (cases "n mod 20 = 0")
  case True
  then have n: "n = 20 * (n div 20)" by presburger
  have "(of_int n :: rat) / 20 = of_int (n div 20)"
  proof -
    have "(of_int n :: rat) = of_int (20 * (n div 20))" using n by simp
    then show ?thesis by simp
  qed
  moreover have "\<bar>n div 20\<bar> \<le> 2 ^ 53" using assms by simp
  ultimately show ?thesis by (simp add: roundDouble_exact)
next
  case False
  define q where "q = n div 20"
  define r where "r = n mod 20"
  let ?x = "of_int n / 20 :: rat"
  have r: "1 \<le> r" "r \<le> 19" using False unfolding r_def by presburger+
  have n: "n = 20 * q + r" by (simp add: q_def r_def)
  have x: "?x = of_int q + of_int r / 20" by (simp add: n)
  have "(1::rat) \<le> of_int r" using r(1) by simp
  then have lo: "of_int q + 1 / 20 \<le> ?x" unfolding x by simp
  have "(of_int r :: rat) \<le> 19" using r(2) by simp
  then have hi: "?x \<le> of_int q + 19 / 20" unfolding x by simp
  have x0: "?x \<noteq> 0" using False by auto
  have "\<bar>of_int n :: rat\<bar> \<le> of_int (2 ^ 53)"
    using assms by (simp only: of_int_abs [symmetric] of_int_le_iff)
  then have "\<bar>?x\<bar> < 2 ^ 49" by simp
  with x0 have "\<bar>roundDouble ?x - ?x\<bar> \<le> 1 / 32" by (rule roundDouble_near)
  then have "of_int q \<le> roundDouble ?x" "roundDouble ?x < of_int q + 1"
    using lo hi by linarith+
  then show ?thesis unfolding q_def by (simp add: floor_unique)
qed

lemma pageNumber_exact:
  assumes "\<bar>n\<bar> \<le> 2 ^ 53"
  shows "pageNumber n = n div 20 + 1"
proof -
  have "\<bar>n div 20 + 1\<bar> \<le> 2 ^ 53" using assms by simp
  then have "roundDouble (of_int (n div 20 + 1)) = of_int (n div 20 + 1)"
    by (rule roundDouble_exact)
  then have "roundDouble (of_int (n div 20) + 1) = of_int (n div 20 + 1)" by simp
  then show ?thesis unfolding pageNumber_def floor_roundDouble_div [OF assms]
    by (simp only: floor_of_int)
qed

lemma pageNumber_negative:
  assumes "n < 0"
  shows "pageNumber n \<le> 0"
proof -
  let ?f = "\<lfloor>roundDouble (of_int n / 20)\<rfloor>"
  have "roundDouble (of_int n / 20) < 0" using assms by (intro roundDouble_neg) simp
  then have f: "?f + 1 \<le> 0" by (simp add: floor_less_iff add1_zle_eq)
  show ?thesis
  proof (cases "?f + 1 = 0")
    case True
    then have "(of_int ?f :: rat) + 1 = 0" by (metis of_int_0 of_int_1 of_int_add)
    then show ?thesis by (simp add: pageNumber_def roundDouble_def)
  next
    case False
    then have "?f + 1 < 0" using f by simp
    then have "(of_int ?f :: rat) + 1 < 0" by (metis of_int_0 of_int_1 of_int_add of_int_less_iff)
    then have "roundDouble (of_int ?f + 1) < 0" by (rule roundDouble_neg)
    then show ?thesis by (simp add: pageNumber_def floor_less_iff less_imp_le)
  qed
qed


lemma handler_parsed:
  assumes "CATALOGS_get (replaceFirst ''cataloog-bp-'' [] (req_id req)) = Own entry"
    and "toString (case req_extra req of None \<Rightarrow> Undefined | Some x \<Rightarrow> skip x) = Some s"
    and "parseInt s = Value n"
  shows "catalogHandler tmdb req st = respond (tmdb (cat_fetch entry) (Some (pageNumber n)) st)"
proof -
  have "skipOf (req_extra req) = Some n" using assms(2,3) by (rule skipOf_parsed)
  then show ?thesis using handler_registered [OF assms(1), of tmdb st] by (simp add: pageOf_def)
qed

lemma thrillersFrom_registered:
  "CATALOGS_get (replaceFirst ''cataloog-bp-'' [] (req_id (thrillersFrom v))) =
   Own \<lparr>cat_type = ''movie'', cat_fetch = GetMoviesByGenre 53\<rparr>"
  using thriller_movies_registered by (simp add: thrillersFrom_def)

lemma thrillersFrom_string:
  "toString (case req_extra (thrillersFrom (Str x)) of None \<Rightarrow> Undefined | Some x \<Rightarrow> skip x) = Some x"
  by (simp add: toString_def thrillersFrom_def)

lemma thrillersFrom_parsed:
  "parseInt s = Value n \<Longrightarrow>
   catalogHandler tmdb (thrillersFrom (Str s)) st
   = respond (tmdb (GetMoviesByGenre 53) (Some (pageNumber n)) st)"
  using handler_parsed [OF thrillersFrom_registered thrillersFrom_string, of s n tmdb st] by simp



lemma parse_minus_ten_to_19:
  "parseInt (units ''-10000000000000000000'') = Value (- 10000000000000000000)"
proof -
  have r: "\<lfloor>roundDouble (of_int 10000000000000000000)\<rfloor> = 10000000000000000000" by code_simp
  have u: "units ''-10000000000000000000'' = 0x2D # units ''10000000000000000000''"
    by (simp add: units_def)
  have "parseInt (0x2D # units ''10000000000000000000'')
        = Value (- \<lfloor>roundDouble (of_int 10000000000000000000)\<rfloor>)"
    by (rule parseInt_digits(2)) (simp_all add: units_def digitValue_def)
  then show ?thesis by (simp only: r u)
qed


lemma page_rounded_down: "pageNumber (- 10000000000000000000) = - 500000000000000000"
  by code_simp




text \<open>
  C10, as the claim states it, gives the page of a negative \<open>skip\<close> as
  \<open>floor(skip / 20) + 1\<close>. The handler computes it on doubles, and the sum is rounded:
  the \<open>skip\<close> \<open>-10000000000000000000\<close> parses to that integer, and the page handed to the
  fetch operation is \<open>-500000000000000000\<close>, while \<open>floor(-10000000000000000000 / 20) + 1\<close>
  is \<open>-499999999999999999\<close>.
\<close>

theorem negative_skip_rounding_counterexample:
  "parseInt (units ''-10000000000000000000'') = Value (- 10000000000000000000)
   \<and> catalogHandler recordCall (thrillersFrom (Str (units ''-10000000000000000000''))) []
       = ([(''metas'', [])], [(GetMoviesByGenre 53, Some (- 500000000000000000))])
   \<and> (- 10000000000000000000 :: int) div 20 + 1 = - 499999999999999999"
proof (intro conjI)
  show "parseInt (units ''-10000000000000000000'') = Value (- 10000000000000000000)"
    by (rule parse_minus_ten_to_19)
  show "catalogHandler recordCall (thrillersFrom (Str (units ''-10000000000000000000''))) []
       = ([(''metas'', [])], [(GetMoviesByGenre 53, Some (- 500000000000000000))])"
    by (simp add: thrillersFrom_parsed [OF parse_minus_ten_to_19] page_rounded_down respond_def
        recordCall_def)
  show "(- 10000000000000000000 :: int) div 20 + 1 = - 499999999999999999" by simp
qed

text \<open>
  C10, amended. For a request that names a registered catalogue and whose \<open>skip\<close> parses
  to a negative integer \<open>n\<close>, the handler neither clamps nor rejects it: the fetch
  operation is called with the page that \<open>Math.floor(n / 20) + 1\<close> gives on doubles,
  which is zero or negative for every such \<open>n\<close> and is \<open>floor(n / 20) + 1\<close> exactly for
  every \<open>n\<close> down to \<open>-2^53\<close>; \<open>skip = -20\<close> gives page \<open>0\<close>.
\<close>

theorem negative_skip_page:
  assumes "CATALOGS_get (replaceFirst ''cataloog-bp-'' [] (req_id req)) = Own entry"
    and "toString (case req_extra req of None \<Rightarrow> Undefined | Some x \<Rightarrow> skip x) = Some s"
    and "parseInt s = Value n"
    and "n < 0"
  shows "catalogHandler tmdb req st = respond (tmdb (cat_fetch entry) (Some (pageNumber n)) st)
       \<and> pageNumber n \<le> 0
       \<and> (- (2 ^ 53) \<le> n \<longrightarrow> pageNumber n = n div 20 + 1)
       \<and> pageNumber (- 20) = 0"
proof (intro conjI impI)
  have "skipOf (req_extra req) = Some n" using assms(2,3) by (rule skipOf_parsed)
  then show "catalogHandler tmdb req st = respond (tmdb (cat_fetch entry) (Some (pageNumber n)) st)"
    using handler_registered [OF assms(1), of tmdb st] by (simp add: pageOf_def)
  show "pageNumber n \<le> 0" using assms(4) by (rule pageNumber_negative)
  show "pageNumber (- 20) = 0" using pageNumber_exact [of "- 20"] by simp
next
  assume "- (2 ^ 53) \<le> n"
  then have "\<bar>n\<bar> \<le> 2 ^ 53" using assms(4) by simp
  then show "pageNumber n = n div 20 + 1" by (rule pageNumber_exact)
qed

theorem negative_skip_page_witness:
  "CATALOGS_get (replaceFirst ''cataloog-bp-'' [] (req_id (thrillersFrom (Str (units ''-20''))))) =
     Own \<lparr>cat_type = ''movie'', cat_fetch = GetMoviesByGenre 53\<rparr>
   \<and> toString (Str (units ''-20'')) = Some (units ''-20'')
   \<and> parseInt (units ''-20'') = Value (- 20) \<and> (- 20 :: int) < 0 \<and> - (2 ^ 53) \<le> (- 20 :: int)
   \<and> (\<forall>tmdb. \<forall>st :: state.
        catalogHandler tmdb (thrillersFrom (Str (units ''-20''))) st
        = respond (tmdb (GetMoviesByGenre 53) (Some 0) st))
   \<and> parseInt (units ''-10000000000000000000'') = Value (- 10000000000000000000)
   \<and> (\<forall>tmdb. \<forall>st :: state.
        catalogHandler tmdb (thrillersFrom (Str (units ''-10000000000000000000''))) st
        = respond (tmdb (GetMoviesByGenre 53) (Some (- 500000000000000000)) st))"
proof (intro conjI allI)
  let ?e = "\<lparr>cat_type = ''movie'', cat_fetch = GetMoviesByGenre 53\<rparr>"
  have reg: "CATALOGS_get (replaceFirst ''cataloog-bp-'' [] (req_id (thrillersFrom v))) = Own ?e" for v
    by (rule thrillersFrom_registered)
  show "CATALOGS_get (replaceFirst ''cataloog-bp-'' [] (req_id (thrillersFrom (Str (units ''-20''))))) = Own ?e"
    by (rule reg)
  show "toString (Str (units ''-20'')) = Some (units ''-20'')" by (simp add: toString_def)
  have s: "toString (case req_extra (thrillersFrom (Str x)) of None \<Rightarrow> Undefined | Some x \<Rightarrow> skip x)
           = Some x" for x
    by (rule thrillersFrom_string)
  have sh: "units (showInt (- 20)) = units ''-20''"
    by (simp add: showInt_def showNat.simps digitChar_def)
  show p: "parseInt (units ''-20'') = Value (- 20)"
    using parseInt_showInt [of "- 20"] sh by simp
  show "(- 20 :: int) < 0" by simp
  show "- (2 ^ 53) \<le> (- 20 :: int)" by simp
  show q: "parseInt (units ''-10000000000000000000'') = Value (- 10000000000000000000)"
    by (rule parse_minus_ten_to_19)
  have pn: "pageNumber (- 10000000000000000000) = - 500000000000000000"
    by (rule page_rounded_down)
  fix tmdb :: "tmdbCall \<Rightarrow> int option \<Rightarrow> state \<Rightarrow> (error + meta list) \<times> state" and st :: state
  show "catalogHandler tmdb (thrillersFrom (Str (units ''-20''))) st
        = respond (tmdb (GetMoviesByGenre 53) (Some 0) st)"
    using negative_skip_page [OF reg s p, of tmdb st] by simp
  show "catalogHandler tmdb (thrillersFrom (Str (units ''-10000000000000000000''))) st
        = respond (tmdb (GetMoviesByGenre 53) (Some (- 500000000000000000)) st)"
    using negative_skip_page [OF reg s q, of tmdb st] pn by simp
qed

subsection \<open>The record formatter\<close>

lemma table_names_nonempty: "map_of GENRE_MAP g = Some s \<Longrightarrow> s \<noteq> []"
  by (drule map_of_SomeD) (auto simp: GENRE_MAP_def)

lemma genreNames_eq:
  "genreNames gs =
   map the (filter (\<lambda>v. v \<noteq> None)
     (map (map_of GENRE_MAP) (case gs of None \<Rightarrow> [] | Some ids \<Rightarrow> ids)))"
proof -
  have "filter truthy (map genreLookup xs) =
        filter (\<lambda>v. v \<noteq> None) (map (map_of GENRE_MAP) xs)" for xs
    by (induction xs)
      (auto simp: truthy_def genreLookup_def dest: table_names_nonempty split: option.splits)
  then show ?thesis by (simp add: genreNames_def filterBooleanStr_def)
qed

text \<open>A formatter that returns a record has resolved a non-empty external id for it.\<close>

lemma formatMovie_from_Some:
  "formatMovie_from seen up mv st = (Some m, st') \<Longrightarrow>
   \<exists>r i. mv = Some r \<and> id_r r \<noteq> None \<and> id_r r \<noteq> Some 0 \<and>
         getMovieImdbId_from seen up (the (id_r r)) st = (Some i, st') \<and> i \<noteq> [] \<and>
         m = movieMeta r i"
  by (auto simp: formatMovie_from_def lacksId_def truthy_def
      split: if_splits option.splits prod.splits)

lemma formatSeries_from_Some:
  "formatSeries_from seen up mv st = (Some m, st') \<Longrightarrow>
   \<exists>r i. mv = Some r \<and> id_r r \<noteq> None \<and> id_r r \<noteq> Some 0 \<and>
         getSeriesImdbId_from seen up (the (id_r r)) st = (Some i, st') \<and> i \<noteq> [] \<and>
         m = seriesMeta r i"
  by (auto simp: formatSeries_from_def lacksId_def truthy_def
      split: if_splits option.splits prod.splits)

lemma showInt_603: "showInt 603 = ''603''"
  by (simp add: showInt_def showNat.simps digitChar_def)

lemma sample_formatMovie:
  "id_r r = Some 603 \<Longrightarrow>
   formatMovie sampleUpstream (Some r) sampleState =
     (Some (movieMeta r ''tt0133093''),
      sampleState\<lparr>requests := [sampleRequest ''/movie/603/external_ids''],
                  imdbCache := [''movie_603'' \<mapsto> Some ''tt0133093'']\<rparr>)"
  by (simp add: formatMovie_def formatMovie_from_def lacksId_def
      getMovieImdbId_from_def showInt_603 sampleState_def tmdb_fetch_def Let_def
      requestUrl_def searchParams_set_def sampleUpstream_def js_or_def truthy_def
      TMDB_BASE_URL_def sampleRequest_def setParam_def)

lemma sample_formatSeries:
  "id_r r = Some 603 \<Longrightarrow>
   formatSeries sampleUpstream (Some r) sampleState =
     (Some (seriesMeta r ''tt0133093''),
      sampleState\<lparr>requests := [sampleRequest ''/tv/603/external_ids''],
                  imdbCache := [''series_603'' \<mapsto> Some ''tt0133093'']\<rparr>)"
  by (simp add: formatSeries_def formatSeries_from_def lacksId_def
      getSeriesImdbId_from_def showInt_603 sampleState_def tmdb_fetch_def Let_def
      requestUrl_def searchParams_set_def sampleUpstream_def js_or_def truthy_def
      TMDB_BASE_URL_def sampleRequest_def setParam_def)

text \<open>
  C7, as the claim states it, speaks of a table of 28 entries. The table of the source
  has 27 entries under 27 different ids.
\<close>

theorem genre_table_size_counterexample:
  "length GENRE_MAP \<noteq> 28 \<and> card (dom (map_of GENRE_MAP)) \<noteq> 28"
proof -
  have d: "distinct (map fst GENRE_MAP)" by (simp add: GENRE_MAP_def)
  have "card (dom (map_of GENRE_MAP)) = length (map fst GENRE_MAP)"
    using distinct_card [OF d] by (simp add: dom_map_of_conv_image_fst)
  then show ?thesis by (simp add: GENRE_MAP_def)
qed

text \<open>
  C7, amended. For every raw record that a formatter turns into metadata, the genres
  list is the list of upstream genre ids mapped through the genre table, in the upstream
  order, with the ids that the table does not hold dropped. The table has 27 entries with
  distinct ids. Genre ids \<open>[53, 9999]\<close> give exactly \<open>[Thriller]\<close>.
\<close>

theorem genres_follow_table:
  "(formatMovie up (Some r) st = (Some m, st') \<or> formatSeries up (Some r) st = (Some m, st') \<longrightarrow>
      genres m =
        map the (filter (\<lambda>v. v \<noteq> None)
          (map (map_of GENRE_MAP) (case genre_ids r of None \<Rightarrow> [] | Some ids \<Rightarrow> ids))))
   \<and> length GENRE_MAP = 27 \<and> distinct (map fst GENRE_MAP)
   \<and> genreNames (Some [53, 9999]) = [''Thriller'']"
proof (intro conjI impI)
  assume "formatMovie up (Some r) st = (Some m, st') \<or> formatSeries up (Some r) st = (Some m, st')"
  then have "\<exists>i. m = movieMeta r i \<or> m = seriesMeta r i"
    unfolding formatMovie_def formatSeries_def
    using formatMovie_from_Some formatSeries_from_Some by blast
  then have "genres m = genreNames (genre_ids r)"
    by (auto simp: movieMeta_def seriesMeta_def)
  then show "genres m =
        map the (filter (\<lambda>v. v \<noteq> None)
          (map (map_of GENRE_MAP) (case genre_ids r of None \<Rightarrow> [] | Some ids \<Rightarrow> ids)))"
    by (simp add: genreNames_eq)
next
  show "genreNames (Some [53, 9999]) = [''Thriller'']"
    by (simp add: genreNames_def filterBooleanStr_def genreLookup_def GENRE_MAP_def truthy_def)
qed (simp_all add: GENRE_MAP_def)

theorem genres_follow_table_witness:
  "formatMovie sampleUpstream (Some sampleRecord) sampleState =
     (Some (movieMeta sampleRecord ''tt0133093''),
      sampleState\<lparr>requests := [sampleRequest ''/movie/603/external_ids''],
                  imdbCache := [''movie_603'' \<mapsto> Some ''tt0133093'']\<rparr>)
   \<and> genre_ids sampleRecord = Some [53, 9999]
   \<and> genres (movieMeta sampleRecord ''tt0133093'') = [''Thriller'']"
proof (intro conjI)
  show f: "formatMovie sampleUpstream (Some sampleRecord) sampleState =
     (Some (movieMeta sampleRecord ''tt0133093''),
      sampleState\<lparr>requests := [sampleRequest ''/movie/603/external_ids''],
                  imdbCache := [''movie_603'' \<mapsto> Some ''tt0133093'']\<rparr>)"
    by (rule sample_formatMovie) (simp add: sampleRecord_def)
  show g: "genre_ids sampleRecord = Some [53, 9999]" by (simp add: sampleRecord_def)
  show "genres (movieMeta sampleRecord ''tt0133093'') = [''Thriller'']"
    using genres_follow_table [of sampleUpstream sampleRecord sampleState
        "movieMeta sampleRecord ''tt0133093''"
        "sampleState\<lparr>requests := [sampleRequest ''/movie/603/external_ids''],
                  imdbCache := [''movie_603'' \<mapsto> Some ''tt0133093'']\<rparr>"] f g
    by (simp add: GENRE_MAP_def)
qed

text \<open>
  C4, as the claim states it, makes the year absent for a date string shorter than four
  characters. The formatter returns such a string whole: the date \<open>198\<close> gives the year
  \<open>198\<close>.
\<close>

theorem short_date_year_counterexample:
  "length ''198'' = 3
   \<and> map_option year
       (fst (formatMovie sampleUpstream (Some (sampleRecord\<lparr>release_date := Some ''198''\<rparr>))
          sampleState)) = Some (Some ''198'')
   \<and> map_option year
       (fst (formatSeries sampleUpstream (Some (sampleRecord\<lparr>first_air_date := Some ''198''\<rparr>))
          sampleState)) = Some (Some ''198'')"
proof -
  have i: "id_r (sampleRecord\<lparr>release_date := Some ''198''\<rparr>) = Some 603"
    "id_r (sampleRecord\<lparr>first_air_date := Some ''198''\<rparr>) = Some 603"
    by (simp_all add: sampleRecord_def)
  show ?thesis
    by (simp add: sample_formatMovie [OF i(1)] sample_formatSeries [OF i(2)]
        movieMeta_def seriesMeta_def substring0_def)
qed

text \<open>
  C4, amended. For every raw record that a formatter turns into metadata, the year and
  the release info are both the first four characters of the release date (movies) or of
  the first air date (series), or the whole string when it has fewer than four
  characters; the year is absent exactly when the date is absent. The date
  \<open>1989-12-31\<close> gives the year \<open>1989\<close>.
\<close>

theorem year_from_date:
  "(formatMovie up (Some r) st = (Some m, st') \<longrightarrow>
      year m = map_option (take 4) (release_date r) \<and> releaseInfo m = year m \<and>
      (year m = None \<longleftrightarrow> release_date r = None))
   \<and> (formatSeries up (Some r) st = (Some m, st') \<longrightarrow>
      year m = map_option (take 4) (first_air_date r) \<and> releaseInfo m = year m \<and>
      (year m = None \<longleftrightarrow> first_air_date r = None))
   \<and> (\<forall>d :: string. length d < 4 \<longrightarrow> take 4 d = d)
   \<and> take 4 ''1989-12-31'' = ''1989''"
proof (intro conjI impI allI)
  assume "formatMovie up (Some r) st = (Some m, st')"
  then have "\<exists>i. m = movieMeta r i"
    unfolding formatMovie_def using formatMovie_from_Some by blast
  then show "year m = map_option (take 4) (release_date r)" "releaseInfo m = year m"
    "year m = None \<longleftrightarrow> release_date r = None"
    by (auto simp: movieMeta_def substring0_def fun_eq_iff cong: map_option_cong)
next
  assume "formatSeries up (Some r) st = (Some m, st')"
  then have "\<exists>i. m = seriesMeta r i"
    unfolding formatSeries_def using formatSeries_from_Some by blast
  then show "year m = map_option (take 4) (first_air_date r)" "releaseInfo m = year m"
    "year m = None \<longleftrightarrow> first_air_date r = None"
    by (auto simp: seriesMeta_def substring0_def fun_eq_iff cong: map_option_cong)
qed simp_all

theorem year_from_date_witness:
  "formatMovie sampleUpstream (Some sampleRecord) sampleState =
     (Some (movieMeta sampleRecord ''tt0133093''),
      sampleState\<lparr>requests := [sampleRequest ''/movie/603/external_ids''],
                  imdbCache := [''movie_603'' \<mapsto> Some ''tt0133093'']\<rparr>)
   \<and> formatSeries sampleUpstream (Some sampleRecord) sampleState =
     (Some (seriesMeta sampleRecord ''tt0133093''),
      sampleState\<lparr>requests := [sampleRequest ''/tv/603/external_ids''],
                  imdbCache := [''series_603'' \<mapsto> Some ''tt0133093'']\<rparr>)
   \<and> release_date sampleRecord = Some ''1989-12-31''
   \<and> year (movieMeta sampleRecord ''tt0133093'') = Some ''1989''
   \<and> year (seriesMeta sampleRecord ''tt0133093'') = Some ''1989''
   \<and> length ''198'' < 4 \<and> take 4 ''198'' = ''198''"
proof (intro conjI)
  have i: "id_r sampleRecord = Some 603" by (simp add: sampleRecord_def)
  show f: "formatMovie sampleUpstream (Some sampleRecord) sampleState =
     (Some (movieMeta sampleRecord ''tt0133093''),
      sampleState\<lparr>requests := [sampleRequest ''/movie/603/external_ids''],
                  imdbCache := [''movie_603'' \<mapsto> Some ''tt0133093'']\<rparr>)"
    by (rule sample_formatMovie [OF i])
  show g: "formatSeries sampleUpstream (Some sampleRecord) sampleState =
     (Some (seriesMeta sampleRecord ''tt0133093''),
      sampleState\<lparr>requests := [sampleRequest ''/tv/603/external_ids''],
                  imdbCache := [''series_603'' \<mapsto> Some ''tt0133093'']\<rparr>)"
    by (rule sample_formatSeries [OF i])
  show d: "release_date sampleRecord = Some ''1989-12-31''" by (simp add: sampleRecord_def)
  have d': "first_air_date sampleRecord = Some ''1989-12-31''" by (simp add: sampleRecord_def)
  show "year (movieMeta sampleRecord ''tt0133093'') = Some ''1989''"
    using year_from_date [of sampleUpstream sampleRecord sampleState
        "movieMeta sampleRecord ''tt0133093''"
        "sampleState\<lparr>requests := [sampleRequest ''/movie/603/external_ids''],
                  imdbCache := [''movie_603'' \<mapsto> Some ''tt0133093'']\<rparr>"] f d
    by simp
  show "year (seriesMeta sampleRecord ''tt0133093'') = Some ''1989''"
    using year_from_date [of sampleUpstream sampleRecord sampleState
        "seriesMeta sampleRecord ''tt0133093''"
        "sampleState\<lparr>requests := [sampleRequest ''/tv/603/external_ids''],
                  imdbCache := [''series_603'' \<mapsto> Some ''tt0133093'']\<rparr>"] g d'
    by simp
  show "length ''198'' < 4" by simp
  show "take 4 ''198'' = ''198''" by simp
qed

subsection \<open>The request URL\<close>

lemma map_of_filter_other: "k' \<noteq> k \<Longrightarrow> map_of (filter (\<lambda>q. fst q \<noteq> k) ps) k' = map_of ps k'"
  by (induction ps) auto

lemma map_of_setFirst:
  "k \<in> fst ` set ps \<Longrightarrow> map_of (setFirst k v ps) = (map_of ps)(k \<mapsto> v)"
proof (induction ps)
  case Nil
  then show ?case by simp
next
  case (Cons p ps)
  show ?case
  proof (cases "fst p = k")
    case True
    then show ?thesis by (cases p) (auto simp: fun_eq_iff map_of_filter_other)
  next
    case False
    with Cons show ?thesis by (cases p) (auto simp: fun_eq_iff)
  qed
qed

lemma map_of_searchParams_set:
  "map_of (searchParams (searchParams_set k v u)) = (map_of (searchParams u))(k \<mapsto> v)"
proof (cases "k \<in> fst ` set (searchParams u)")
  case True
  then show ?thesis by (simp add: searchParams_set_def map_of_setFirst)
next
  case False
  then have "map_of (searchParams u) k = None" by (simp add: map_of_eq_None_iff)
  then show ?thesis using False by (auto simp: searchParams_set_def fun_eq_iff map_add_def split: option.splits)
qed

lemma setParam_other:
  "fst kv \<noteq> k \<Longrightarrow> map_of (searchParams (setParam u kv)) k = map_of (searchParams u) k"
  by (simp add: setParam_def map_of_searchParams_set)

lemma setParam_value:
  "map_of (searchParams (setParam u (k, PValue s))) k = Some s"
  by (simp add: setParam_def map_of_searchParams_set paramString_def)

lemma setParam_null: "v = PUndefined \<or> v = PNull \<Longrightarrow> setParam u (k, v) = u"
  by (auto simp: setParam_def)

lemma setParam_keeps:
  "map_of (searchParams u) k \<noteq> None \<Longrightarrow> map_of (searchParams (setParam u kv)) k \<noteq> None"
  by (simp add: setParam_def map_of_searchParams_set)

lemma setParam_href: "href (setParam u kv) = href u"
  by (simp add: setParam_def searchParams_set_def)

lemma fold_value:
  "distinct (map fst params) \<Longrightarrow> (k, PValue s) \<in> set params \<Longrightarrow>
   map_of (searchParams (foldl setParam u params)) k = Some s"
proof (induction params rule: rev_induct)
  case Nil
  then show ?case by simp
next
  case (snoc x xs)
  show ?case
  proof (cases "x = (k, PValue s)")
    case True
    then show ?thesis by (simp add: setParam_value)
  next
    case False
    with snoc.prems have in_xs: "(k, PValue s) \<in> set xs" by auto
    then have "k \<in> fst ` set xs" by force
    with snoc.prems have "fst x \<noteq> k" by auto
    moreover have "map_of (searchParams (foldl setParam u xs)) k = Some s"
      using snoc in_xs by simp
    ultimately show ?thesis by (simp add: setParam_other)
  qed
qed

lemma fold_null:
  "\<forall>v. (k, v) \<in> set params \<longrightarrow> v = PUndefined \<or> v = PNull \<Longrightarrow>
   map_of (searchParams (foldl setParam u params)) k = map_of (searchParams u) k"
proof (induction params rule: rev_induct)
  case Nil
  then show ?case by simp
next
  case (snoc x xs)
  show ?case
  proof (cases "fst x = k")
    case True
    then have "snd x = PUndefined \<or> snd x = PNull" using snoc.prems by (cases x) auto
    then have "setParam (foldl setParam u xs) x = foldl setParam u xs"
      using setParam_null [of "snd x" "foldl setParam u xs" "fst x"] by simp
    then show ?thesis using snoc by simp
  next
    case False
    then show ?thesis using snoc by (simp add: setParam_other)
  qed
qed

lemma fold_keeps:
  "map_of (searchParams u) k \<noteq> None \<Longrightarrow> map_of (searchParams (foldl setParam u params)) k \<noteq> None"
  by (induction params arbitrary: u) (auto simp: setParam_keeps simp del: not_None_eq)

lemma fold_href: "href (foldl setParam u params) = href u"
  by (induction params arbitrary: u) (auto simp: setParam_href)

lemma defaults_map:
  "map_of (searchParams (searchParams_set ''language'' lang
          (searchParams_set ''api_key'' key
             \<lparr>href = h, searchParams = []\<rparr>))) = [''api_key'' \<mapsto> key, ''language'' \<mapsto> lang]"
  by (simp add: map_of_searchParams_set)

text \<open>
  C8, as the claim states it, lets the URL always carry the client's API key and locale and
  never carry a parameter whose value is \<open>null\<close>. The caller's parameters are set after the
  defaults and under the same names: a caller's \<open>api_key\<close> replaces the client's key, and
  a caller's \<open>language: null\<close> leaves the default \<open>language\<close> in the URL.
\<close>

theorem request_url_defaults_counterexample:
  "(''api_key'', ''secret'') \<notin>
     set (searchParams (requestUrl ''secret'' ''fr-FR'' ''/discover/movie''
            [(''api_key'', PValue ''other'')]))
   \<and> searchParams (requestUrl ''secret'' ''fr-FR'' ''/discover/movie''
            [(''api_key'', PValue ''other'')])
       = [(''api_key'', ''other''), (''language'', ''fr-FR'')]
   \<and> ''language'' \<in>
     fst ` set (searchParams (requestUrl ''secret'' ''fr-FR'' ''/discover/movie''
            [(''language'', PNull)]))"
  by (simp add: requestUrl_def setParam_def searchParams_set_def paramString_def)

text \<open>
  C8, amended. For every endpoint path and every caller-supplied parameter object, the
  request URL is the base address followed by the path; its query always has an
  \<open>api_key\<close> and a \<open>language\<close> parameter, which carry the client's API key and locale unless
  the caller supplies a value that is neither \<open>undefined\<close> nor \<open>null\<close> under the same name;
  every caller-supplied parameter whose value is neither \<open>undefined\<close> nor \<open>null\<close> is in the
  query with that value; and a name other than the two defaults whose value is
  \<open>undefined\<close> or \<open>null\<close> is not in the query at all.
\<close>

theorem request_url_parameters:
  assumes "distinct (map fst params)"
  shows "href (requestUrl key lang endpoint params) = TMDB_BASE_URL @ endpoint
   \<and> ''api_key'' \<in> fst ` set (searchParams (requestUrl key lang endpoint params))
   \<and> ''language'' \<in> fst ` set (searchParams (requestUrl key lang endpoint params))
   \<and> ((\<forall>v. (''api_key'', v) \<in> set params \<longrightarrow> v = PUndefined \<or> v = PNull) \<longrightarrow>
        (''api_key'', key) \<in> set (searchParams (requestUrl key lang endpoint params)))
   \<and> ((\<forall>v. (''language'', v) \<in> set params \<longrightarrow> v = PUndefined \<or> v = PNull) \<longrightarrow>
        (''language'', lang) \<in> set (searchParams (requestUrl key lang endpoint params)))
   \<and> (\<forall>k s. (k, PValue s) \<in> set params \<longrightarrow>
        (k, s) \<in> set (searchParams (requestUrl key lang endpoint params)) \<and>
        map_of (searchParams (requestUrl key lang endpoint params)) k = Some s)
   \<and> (\<forall>k. k \<noteq> ''api_key'' \<and> k \<noteq> ''language'' \<and>
          (\<forall>v. (k, v) \<in> set params \<longrightarrow> v = PUndefined \<or> v = PNull) \<longrightarrow>
        k \<notin> fst ` set (searchParams (requestUrl key lang endpoint params)))"
proof -
  let ?u0 = "searchParams_set ''language'' lang
          (searchParams_set ''api_key'' key
             \<lparr>href = TMDB_BASE_URL @ endpoint, searchParams = []\<rparr>)"
  let ?q = "searchParams (requestUrl key lang endpoint params)"
  have q: "requestUrl key lang endpoint params = foldl setParam ?u0 params"
    by (simp add: requestUrl_def)
  have m0: "map_of (searchParams ?u0) = [''api_key'' \<mapsto> key, ''language'' \<mapsto> lang]"
    by (rule defaults_map)
  have h: "href (requestUrl key lang endpoint params) = TMDB_BASE_URL @ endpoint"
    by (simp add: q fold_href searchParams_set_def)
  have a: "''api_key'' \<in> fst ` set ?q"
    using fold_keeps [of ?u0 "''api_key''" params] m0
    by (simp add: q map_of_eq_None_iff del: not_None_eq)
  have l: "''language'' \<in> fst ` set ?q"
    using fold_keeps [of ?u0 "''language''" params] m0
    by (simp add: q map_of_eq_None_iff del: not_None_eq)
  have ak: "(''api_key'', key) \<in> set ?q"
    if "\<forall>v. (''api_key'', v) \<in> set params \<longrightarrow> v = PUndefined \<or> v = PNull"
    using fold_null [OF that, of ?u0] m0 by (simp add: q map_of_SomeD)
  have lk: "(''language'', lang) \<in> set ?q"
    if "\<forall>v. (''language'', v) \<in> set params \<longrightarrow> v = PUndefined \<or> v = PNull"
    using fold_null [OF that, of ?u0] m0 by (simp add: q map_of_SomeD)
  have v: "(k, s) \<in> set ?q \<and> map_of ?q k = Some s" if "(k, PValue s) \<in> set params" for k s
    using fold_value [OF assms that, of ?u0] by (simp add: q map_of_SomeD)
  have n: "k \<notin> fst ` set ?q"
    if "k \<noteq> ''api_key'' \<and> k \<noteq> ''language'' \<and>
          (\<forall>v. (k, v) \<in> set params \<longrightarrow> v = PUndefined \<or> v = PNull)" for k
  proof -
    have "map_of ?q k = map_of (searchParams ?u0) k"
      using that fold_null [of k params ?u0] by (simp add: q)
    also have "\<dots> = None" using that by (simp add: m0)
    finally show ?thesis by (simp add: map_of_eq_None_iff)
  qed
  from h a l ak lk v n show ?thesis by blast
qed

theorem request_url_parameters_witness:
  "distinct (map fst [(''page'', num 2), (''with_genres'', PValue ''53''),
                      (''region'', PNull), (''query'', PUndefined)])
   \<and> (''page'', ''2'') \<in> set (searchParams (requestUrl ''secret'' ''fr-FR'' ''/discover/movie''
        [(''page'', num 2), (''with_genres'', PValue ''53''),
         (''region'', PNull), (''query'', PUndefined)]))
   \<and> (''api_key'', ''secret'') \<in> set (searchParams (requestUrl ''secret'' ''fr-FR'' ''/discover/movie''
        [(''page'', num 2), (''with_genres'', PValue ''53''),
         (''region'', PNull), (''query'', PUndefined)]))
   \<and> ''region'' \<notin> fst ` set (searchParams (requestUrl ''secret'' ''fr-FR'' ''/discover/movie''
        [(''page'', num 2), (''with_genres'', PValue ''53''),
         (''region'', PNull), (''query'', PUndefined)]))
   \<and> searchParams (requestUrl ''secret'' ''fr-FR'' ''/discover/movie''
        [(''page'', num 2), (''with_genres'', PValue ''53''),
         (''region'', PNull), (''query'', PUndefined)])
       = [(''api_key'', ''secret''), (''language'', ''fr-FR''), (''page'', ''2''),
          (''with_genres'', ''53'')]"
proof -
  have d: "distinct (map fst [(''page'', num 2), (''with_genres'', PValue ''53''),
                      (''region'', PNull), (''query'', PUndefined)])"
    by simp
  have two: "num 2 = PValue ''2''"
    by (simp add: num_def showInt_def showNat.simps digitChar_def)
  have e: "searchParams (requestUrl ''secret'' ''fr-FR'' ''/discover/movie''
        [(''page'', num 2), (''with_genres'', PValue ''53''),
         (''region'', PNull), (''query'', PUndefined)])
       = [(''api_key'', ''secret''), (''language'', ''fr-FR''), (''page'', ''2''),
          (''with_genres'', ''53'')]"
    by (simp add: two requestUrl_def setParam_def searchParams_set_def paramString_def)
  show ?thesis
    using request_url_parameters [OF d, of "''secret''" "''fr-FR''" "''/discover/movie''"] d e two
    by simp
qed

subsection \<open>The response of the handler\<close>

lemma respond_shape: "\<exists>ms. fst (respond r) = [(''metas'', ms)]"
  by (cases r) (auto simp: respond_def split: sum.splits)

lemma respond_failure: "isl (fst r) \<Longrightarrow> fst (respond r) = [(''metas'', [])]"
  by (cases r) (auto simp: respond_def split: sum.splits)

lemma handler_unregistered:
  "map_of CATALOGS (replaceFirst ''cataloog-bp-'' [] (req_id req)) = None \<Longrightarrow>
   catalogHandler tmdb req st = ([(''metas'', [])], st)"
  by (simp add: catalogHandler_def CATALOGS_get_def Let_def respond_def)

lemma unknown_unregistered:
  "map_of CATALOGS (replaceFirst ''cataloog-bp-'' [] (req_id unknownRequest)) = None"
  by (simp add: CATALOGS_def unknownRequest_def)

lemma sample_fetch_fails:
  "catalogueFetch failingUpstream 0 (GetMoviesByGenre 53) 1 sampleState =
     (Inl NetworkError,
      sampleState\<lparr>requests :=
        [\<lparr>href = ''https://api.themoviedb.org/3/discover/movie'',
          searchParams =
            [(''api_key'', ''secret''), (''language'', ''fr-FR''), (''page'', ''1''),
             (''with_genres'', ''53''), (''sort_by'', ''popularity.desc''),
             (''vote_count.gte'', ''50'')]\<rparr>]\<rparr>)"
  by (simp add: catalogueFetch_def mk_def cached_def cached_hit_def sampleState_def
      listing_def tmdb_fetch_def Let_def failingUpstream_def requestUrl_def setParam_def
      searchParams_set_def paramString_def num_def showInt_def showNat.simps digitChar_def
      TMDB_BASE_URL_def)

text \<open>
  C5, as the claim states it, gives the response to an unknown catalogue id as an object
  with the field \<open>results\<close>. The handler answers with the field \<open>metas\<close>.
\<close>

theorem unknown_catalogue_counterexample:
  "map_of CATALOGS (replaceFirst ''cataloog-bp-'' [] (req_id unknownRequest)) = None
   \<and> fst (serve sampleUpstream 0 sampleBeyond unknownRequest sampleState) \<noteq> [(''results'', [])]
   \<and> fst (serve sampleUpstream 0 sampleBeyond unknownRequest sampleState) = [(''metas'', [])]"
  using unknown_unregistered
  by (simp add: serve_def handler_unregistered [OF unknown_unregistered])

text \<open>
  C5, amended. For every dispatch request whose catalogue identifier does not name a
  registered catalogue, the handler returns the response \<open>{ metas: [] }\<close> without
  throwing and without calling the client; and for every request the consumer receives
  an object with the one field \<open>metas\<close> holding a list, which is empty when the fetch
  operation of the catalogue fails.
\<close>

theorem handler_always_responds:
  "(\<exists>ms. fst (catalogHandler tmdb req st) = [(''metas'', ms)])
   \<and> (map_of CATALOGS (replaceFirst ''cataloog-bp-'' [] (req_id req)) = None \<longrightarrow>
        catalogHandler tmdb req st = ([(''metas'', [])], st))
   \<and> (\<forall>entry. CATALOGS_get (replaceFirst ''cataloog-bp-'' [] (req_id req)) = Own entry \<and>
          isl (fst (tmdb (cat_fetch entry) (pageOf (skipOf (req_extra req))) st)) \<longrightarrow>
        fst (catalogHandler tmdb req st) = [(''metas'', [])])"
proof (intro conjI impI allI)
  show "\<exists>ms. fst (catalogHandler tmdb req st) = [(''metas'', ms)]"
    by (simp add: catalogHandler_def Let_def respond_shape)
next
  assume "map_of CATALOGS (replaceFirst ''cataloog-bp-'' [] (req_id req)) = None"
  then show "catalogHandler tmdb req st = ([(''metas'', [])], st)"
    by (rule handler_unregistered)
next
  fix entry
  assume "CATALOGS_get (replaceFirst ''cataloog-bp-'' [] (req_id req)) = Own entry \<and>
          isl (fst (tmdb (cat_fetch entry) (pageOf (skipOf (req_extra req))) st))"
  then show "fst (catalogHandler tmdb req st) = [(''metas'', [])]"
    using handler_registered [of req entry tmdb st] by (simp add: respond_failure)
qed

theorem handler_always_responds_witness:
  "map_of CATALOGS (replaceFirst ''cataloog-bp-'' [] (req_id unknownRequest)) = None
   \<and> serve failingUpstream 0 sampleBeyond unknownRequest sampleState = ([(''metas'', [])], sampleState)
   \<and> CATALOGS_get (replaceFirst ''cataloog-bp-'' [] (req_id thrillerRequest)) =
        Own \<lparr>cat_type = ''movie'', cat_fetch = GetMoviesByGenre 53\<rparr>
   \<and> isl (fst (catalogueFetch failingUpstream 0 (GetMoviesByGenre 53) 1 sampleState))
   \<and> fst (serve failingUpstream 0 sampleBeyond thrillerRequest sampleState) = [(''metas'', [])]"
proof (intro conjI)
  let ?client = "\<lambda>c page s. case page of Some n \<Rightarrow> catalogueFetch failingUpstream 0 c n s
                                         | None \<Rightarrow> sampleBeyond c s"
  show u: "map_of CATALOGS (replaceFirst ''cataloog-bp-'' [] (req_id unknownRequest)) = None"
    by (rule unknown_unregistered)
  show "serve failingUpstream 0 sampleBeyond unknownRequest sampleState = ([(''metas'', [])], sampleState)"
    using handler_always_responds [of ?client unknownRequest sampleState] u
    by (simp add: serve_def)
  show t: "CATALOGS_get (replaceFirst ''cataloog-bp-'' [] (req_id thrillerRequest)) =
        Own \<lparr>cat_type = ''movie'', cat_fetch = GetMoviesByGenre 53\<rparr>"
    using thriller_movies_registered by (simp add: thrillerRequest_def)
  show f: "isl (fst (catalogueFetch failingUpstream 0 (GetMoviesByGenre 53) 1 sampleState))"
    by (simp add: sample_fetch_fails)
  have p: "pageOf (skipOf (req_extra thrillerRequest)) = Some 1"
    using pageNumber_exact [of 0]
    by (simp add: thrillerRequest_def skipOf_def toString_def parseInt_undefined pageOf_def)
  show "fst (serve failingUpstream 0 sampleBeyond thrillerRequest sampleState) = [(''metas'', [])]"
    using handler_always_responds [of ?client thrillerRequest sampleState] t f p
    by (simp add: serve_def)
qed

subsection \<open>Steps that leave the response cache alone\<close>

lemma cacheFreeI: "(\<And>st c. f (st\<lparr>cache := c\<rparr>) = (fst (f st), (snd (f st))\<lparr>cache := c\<rparr>)) \<Longrightarrow> cacheFree f"
  by (simp add: cacheFree_def)

lemma cacheFreeD: "cacheFree f \<Longrightarrow> f (st\<lparr>cache := c\<rparr>) = (fst (f st), (snd (f st))\<lparr>cache := c\<rparr>)"
  by (simp add: cacheFree_def)

lemma cacheFree_cache: 
  assumes "cacheFree f" shows "cache (snd (f st)) = cache st"
proof -
  have "f (st\<lparr>cache := cache st\<rparr>) = (fst (f st), (snd (f st))\<lparr>cache := cache st\<rparr>)"
    using assms by (rule cacheFreeD)
  then have "snd (f st) = (snd (f st))\<lparr>cache := cache st\<rparr>" by (simp add: prod_eq_iff)
  then have "cache (snd (f st)) = cache ((snd (f st))\<lparr>cache := cache st\<rparr>)" by simp
  then show ?thesis by simp
qed

lemma tmdb_fetch_cacheFree: "cacheFree (tmdb_fetch up endpoint params)"
  by (rule cacheFreeI) (simp add: tmdb_fetch_def Let_def split: reply.splits option.splits)

lemma getMovieImdbId_from_cacheFree: "cacheFree (getMovieImdbId_from seen up i)"
  by (rule cacheFreeI)
     (simp add: getMovieImdbId_from_def Let_def cacheFreeD [OF tmdb_fetch_cacheFree]
        split: option.splits sum.splits prod.splits)

lemma getSeriesImdbId_from_cacheFree: "cacheFree (getSeriesImdbId_from seen up i)"
  by (rule cacheFreeI)
     (simp add: getSeriesImdbId_from_def Let_def cacheFreeD [OF tmdb_fetch_cacheFree]
        split: option.splits sum.splits prod.splits)

lemma formatOne_cacheFree: "cacheFree (formatOne kd seen up r)"
  by (rule cacheFreeI)
     (simp add: formatOne_def formatMovie_from_def formatSeries_from_def
        cacheFreeD [OF getMovieImdbId_from_cacheFree] cacheFreeD [OF getSeriesImdbId_from_cacheFree]
        split: kind.splits prod.splits)

lemma promiseAll_cacheFree:
  assumes "\<And>x. cacheFree (f x)"
  shows "cacheFree (promiseAll_map f xs)"
proof (rule cacheFreeI)
  fix st c
  show "promiseAll_map f xs (st\<lparr>cache := c\<rparr>) =
        (fst (promiseAll_map f xs st), (snd (promiseAll_map f xs st))\<lparr>cache := c\<rparr>)"
  proof (induction xs arbitrary: st)
    case Nil
    show ?case by simp
  next
    case (Cons x xs)
    show ?case
      by (simp add: cacheFreeD [OF assms] Cons split: prod.splits)
  qed
qed

lemma formatAll_cacheFree: "cacheFree (formatAll kd up rs)"
  by (rule cacheFreeI)
     (simp add: formatAll_def cacheFreeD [OF promiseAll_cacheFree [OF formatOne_cacheFree]])

lemma listing_cacheFree: "cacheFree (listing kd up endpoint params)"
  by (rule cacheFreeI)
     (simp add: listing_def cacheFreeD [OF tmdb_fetch_cacheFree] cacheFreeD [OF formatAll_cacheFree]
        split: prod.splits sum.splits option.splits)

lemma listing_keepsCache: "keepsCache (listing kd up endpoint params)"
  by (simp add: keepsCache_def cacheFree_cache [OF listing_cacheFree])
subsection \<open>The log of requests\<close>

lemma appendsRequestsI:
  "(\<And>st. \<exists>more. requests (snd (f st)) = requests st @ more) \<Longrightarrow> appendsRequests f"
  by (simp add: appendsRequests_def)

lemma appendsRequestsD:
  "appendsRequests f \<Longrightarrow> \<exists>more. requests (snd (f st)) = requests st @ more"
  by (simp add: appendsRequests_def)

lemma tmdb_fetch_requests:
  "requests (snd (tmdb_fetch up endpoint params st)) =
   requests st @ [requestUrl (apiKey st) (language st) endpoint params]"
  by (simp add: tmdb_fetch_def Let_def split: reply.splits option.splits)

lemma getMovieImdbId_from_appends: "appendsRequests (getMovieImdbId_from seen up i)"
proof (rule appendsRequestsI)
  fix st
  show "\<exists>more. requests (snd (getMovieImdbId_from seen up i st)) = requests st @ more"
    using tmdb_fetch_requests [of up "''/movie/'' @ showInt i @ ''/external_ids''" "[]" st]
    by (auto simp: getMovieImdbId_from_def Let_def split: option.splits sum.splits prod.splits)
qed

lemma getSeriesImdbId_from_appends: "appendsRequests (getSeriesImdbId_from seen up i)"
proof (rule appendsRequestsI)
  fix st
  show "\<exists>more. requests (snd (getSeriesImdbId_from seen up i st)) = requests st @ more"
    using tmdb_fetch_requests [of up "''/tv/'' @ showInt i @ ''/external_ids''" "[]" st]
    by (auto simp: getSeriesImdbId_from_def Let_def split: option.splits sum.splits prod.splits)
qed

lemma formatOne_appends: "appendsRequests (formatOne kd seen up r)"
proof (rule appendsRequestsI)
  fix st
  show "\<exists>more. requests (snd (formatOne kd seen up r st)) = requests st @ more"
    using appendsRequestsD [OF getMovieImdbId_from_appends, of seen up "the (id_r (the r))" st]
      appendsRequestsD [OF getSeriesImdbId_from_appends, of seen up "the (id_r (the r))" st]
    by (auto simp: formatOne_def formatMovie_from_def formatSeries_from_def
        split: kind.splits prod.splits)
qed

lemma promiseAll_appends:
  assumes "\<And>x. appendsRequests (f x)"
  shows "appendsRequests (promiseAll_map f xs)"
proof (rule appendsRequestsI)
  fix st
  show "\<exists>more. requests (snd (promiseAll_map f xs st)) = requests st @ more"
  proof (induction xs arbitrary: st)
    case Nil
    show ?case by simp
  next
    case (Cons x xs)
    obtain y st1 where f: "f x st = (y, st1)" by (cases "f x st")
    obtain m1 where m1: "requests st1 = requests st @ m1"
      using appendsRequestsD [OF assms, of x st] f by auto
    obtain m2 where m2: "requests (snd (promiseAll_map f xs st1)) = requests st1 @ m2"
      using Cons by blast
    show ?case using f m1 m2 by (auto split: prod.splits)
  qed
qed

lemma formatAll_appends: "appendsRequests (formatAll kd up rs)"
proof (rule appendsRequestsI)
  fix st
  show "\<exists>more. requests (snd (formatAll kd up rs st)) = requests st @ more"
    using appendsRequestsD [OF promiseAll_appends [OF formatOne_appends]]
    by (simp add: formatAll_def)
qed

text \<open>A listing sends its own request first, whatever the cache holds.\<close>

lemma listing_requests:
  "\<exists>more. requests (snd (listing kd up endpoint params st)) =
     requests st @ requestUrl (apiKey st) (language st) endpoint params # more"
proof (cases "tmdb_fetch up endpoint params st")
  case (Pair r st1)
  have r1: "requests st1 = requests st @ [requestUrl (apiKey st) (language st) endpoint params]"
    using tmdb_fetch_requests [of up endpoint params st] Pair by simp
  show ?thesis
  proof (cases r)
    case (Inl e)
    then show ?thesis using Pair r1 by (simp add: listing_def)
  next
    case (Inr d)
    show ?thesis
    proof (cases "results d")
      case None
      then show ?thesis using Pair Inr r1 by (simp add: listing_def)
    next
      case (Some rs)
      obtain ms st2 where f: "formatAll kd up rs st1 = (ms, st2)"
        by (cases "formatAll kd up rs st1")
      obtain m where "requests st2 = requests st1 @ m"
        using appendsRequestsD [OF formatAll_appends, of kd up rs st1] f by auto
      then show ?thesis using Pair Inr Some r1 f by (simp add: listing_def)
    qed
  qed
qed

subsection \<open>Catalogue operations and the response cache\<close>

lemma cached_on_hit: "cached_hit now k (cache st) = Some d \<Longrightarrow> cached now k fn st = (Inr d, st)"
  by (simp add: cached_def)

lemma cached_on_miss:
  "cached_hit now k (cache st) = None \<Longrightarrow>
   cached now k fn st =
     (case fn st of
        (Inl err, st') \<Rightarrow> (Inl err, st')
      | (Inr d, st') \<Rightarrow> (Inr d, st'\<lparr>cache := cached_store now k d (cache st')\<rparr>))"
  by (simp add: cached_def)

lemma mk_fields:
  "op_key (mk k kd e ps) = k" "op_kind (mk k kd e ps) = kd"
  "op_endpoint (mk k kd e ps) = e" "op_params (mk k kd e ps) = ps"
  by (simp_all add: mk_def)

lemma showInt_small: "showInt 7 = ''7''" "showInt 1 = ''1''" "showInt 53 = ''53''" "showInt 50 = ''50''"
  by (simp_all add: showInt_def showNat.simps digitChar_def)

lemma sample_page_formatAll:
  "imdbCache st = Map.empty \<Longrightarrow> apiKey st = ''secret'' \<Longrightarrow> language st = ''fr-FR'' \<Longrightarrow>
   formatAll Movie pageUpstream samplePage st =
     ([Some (movieMeta sampleRecord ''tt0133093''), None, None, None],
      st\<lparr>requests := requests st @
           [sampleRequest ''/movie/603/external_ids'', sampleRequest ''/movie/7/external_ids''],
         imdbCache := [''movie_603'' \<mapsto> Some ''tt0133093'', ''movie_7'' \<mapsto> None]\<rparr>)"
  by (simp add: formatAll_def samplePage_def formatOne_def formatMovie_from_def lacksId_def
      sampleRecord_def getMovieImdbId_from_def showInt_603 showInt_small tmdb_fetch_def Let_def
      requestUrl_def searchParams_set_def pageUpstream_def js_or_def truthy_def
      TMDB_BASE_URL_def sampleRequest_def)

lemma sample_page_listing:
  assumes "endpoint = ''/discover/movie'' \<or> endpoint = ''/search/movie''"
  shows "listing Movie pageUpstream endpoint params sampleState =
     (Inr [movieMeta sampleRecord ''tt0133093''],
      pageState (requestUrl ''secret'' ''fr-FR'' endpoint params))"
proof -
  let ?u = "requestUrl ''secret'' ''fr-FR'' endpoint params"
  have h: "href ?u = TMDB_BASE_URL @ endpoint"
    by (simp add: requestUrl_def fold_href searchParams_set_def)
  have r: "pageUpstream 0 ?u = Response 200 (Some \<lparr>imdb_id = None, results = Some samplePage\<rparr>)"
    using assms by (auto simp: pageUpstream_def h TMDB_BASE_URL_def)
  have f: "tmdb_fetch pageUpstream endpoint params sampleState =
      (Inr \<lparr>imdb_id = None, results = Some samplePage\<rparr>, sampleState\<lparr>requests := [?u]\<rparr>)"
    using r by (simp add: tmdb_fetch_def Let_def sampleState_def)
  have g: "formatAll Movie pageUpstream samplePage (sampleState\<lparr>requests := [?u]\<rparr>) =
     ([Some (movieMeta sampleRecord ''tt0133093''), None, None, None],
      pageState ?u)"
    using sample_page_formatAll [of "sampleState\<lparr>requests := [?u]\<rparr>"]
    by (simp add: sampleState_def pageState_def)
  show ?thesis
    by (simp add: listing_def f g filterBoolean_def)
qed

text \<open>
  C9. The two search operations bypass the response cache: run on a state with any other
  cache they give the same result and the same state but for that cache (nothing is
  read), they leave the cache as it was (nothing is written), and every call sends its
  search request. Every named catalogue operation, in contrast, answers from the cache
  without any request when the key has a fresh entry, and stores its result under the key
  when it had to compute it.
\<close>

theorem search_bypasses_cache:
  "(\<forall>c. searchMovies up q page (st\<lparr>cache := c\<rparr>) =
        (fst (searchMovies up q page st), (snd (searchMovies up q page st))\<lparr>cache := c\<rparr>))
   \<and> cache (snd (searchMovies up q page st)) = cache st
   \<and> (\<exists>more. requests (snd (searchMovies up q page st)) =
        requests st @
        requestUrl (apiKey st) (language st) ''/search/movie'' [(''query'', q), (''page'', num page)]
        # more)
   \<and> (\<forall>c. searchSeries up q page (st\<lparr>cache := c\<rparr>) =
        (fst (searchSeries up q page st), (snd (searchSeries up q page st))\<lparr>cache := c\<rparr>))
   \<and> cache (snd (searchSeries up q page st)) = cache st
   \<and> (\<exists>more. requests (snd (searchSeries up q page st)) =
        requests st @
        requestUrl (apiKey st) (language st) ''/search/tv'' [(''query'', q), (''page'', num page)]
        # more)
   \<and> (\<forall>d. cached_hit now (op_key (describe c page)) (cache st) = Some d \<longrightarrow>
        catalogueFetch up now c page st = (Inr d, st))
   \<and> (\<forall>d st'. cached_hit now (op_key (describe c page)) (cache st) = None \<and>
        listing (op_kind (describe c page)) up (op_endpoint (describe c page))
          (op_params (describe c page)) st = (Inr d, st') \<longrightarrow>
        catalogueFetch up now c page st =
          (Inr d, st'\<lparr>cache := (cache st)(op_key (describe c page) \<mapsto> \<lparr>data = d, timestamp = now\<rparr>)\<rparr>))"
proof (intro conjI allI impI)
  fix c
  show "searchMovies up q page (st\<lparr>cache := c\<rparr>) =
        (fst (searchMovies up q page st), (snd (searchMovies up q page st))\<lparr>cache := c\<rparr>)"
    unfolding searchMovies_def by (rule cacheFreeD [OF listing_cacheFree])
  show "searchSeries up q page (st\<lparr>cache := c\<rparr>) =
        (fst (searchSeries up q page st), (snd (searchSeries up q page st))\<lparr>cache := c\<rparr>)"
    unfolding searchSeries_def by (rule cacheFreeD [OF listing_cacheFree])
next
  show "cache (snd (searchMovies up q page st)) = cache st"
    unfolding searchMovies_def by (rule cacheFree_cache [OF listing_cacheFree])
  show "cache (snd (searchSeries up q page st)) = cache st"
    unfolding searchSeries_def by (rule cacheFree_cache [OF listing_cacheFree])
  show "\<exists>more. requests (snd (searchMovies up q page st)) =
        requests st @
        requestUrl (apiKey st) (language st) ''/search/movie'' [(''query'', q), (''page'', num page)]
        # more"
    unfolding searchMovies_def by (rule listing_requests)
  show "\<exists>more. requests (snd (searchSeries up q page st)) =
        requests st @
        requestUrl (apiKey st) (language st) ''/search/tv'' [(''query'', q), (''page'', num page)]
        # more"
    unfolding searchSeries_def by (rule listing_requests)
next
  fix d
  assume "cached_hit now (op_key (describe c page)) (cache st) = Some d"
  then show "catalogueFetch up now c page st = (Inr d, st)"
    by (simp add: catalogueFetch_def cached_on_hit)
next
  fix d st'
  assume h: "cached_hit now (op_key (describe c page)) (cache st) = None \<and>
        listing (op_kind (describe c page)) up (op_endpoint (describe c page))
          (op_params (describe c page)) st = (Inr d, st')"
  then have "cache st' = cache st"
    using cacheFree_cache [OF listing_cacheFree, of "op_kind (describe c page)" up
        "op_endpoint (describe c page)" "op_params (describe c page)" st]
    by simp
  then show "catalogueFetch up now c page st =
          (Inr d, st'\<lparr>cache := (cache st)(op_key (describe c page) \<mapsto> \<lparr>data = d, timestamp = now\<rparr>)\<rparr>)"
    using h by (simp add: catalogueFetch_def cached_on_miss cached_store_def)
qed

theorem search_bypasses_cache_witness:
  "cached_hit 1000 (op_key (describe (GetMoviesByGenre 53) 1)) (cache cachedState) = Some []
   \<and> catalogueFetch pageUpstream 1000 (GetMoviesByGenre 53) 1 cachedState = (Inr [], cachedState)
   \<and> fst (searchMovies pageUpstream (PValue ''matrix'') 1 cachedState) =
       Inr [movieMeta sampleRecord ''tt0133093'']
   \<and> cached_hit 1000 (op_key (describe (GetMoviesByGenre 53) 1)) (cache sampleState) = None
   \<and> listing (op_kind (describe (GetMoviesByGenre 53) 1)) pageUpstream
        (op_endpoint (describe (GetMoviesByGenre 53) 1))
        (op_params (describe (GetMoviesByGenre 53) 1)) sampleState =
       (Inr [movieMeta sampleRecord ''tt0133093''],
        pageState (requestUrl ''secret'' ''fr-FR'' ''/discover/movie''
          (op_params (describe (GetMoviesByGenre 53) 1))))
   \<and> cache (snd (catalogueFetch pageUpstream 1000 (GetMoviesByGenre 53) 1 sampleState)) =
       [''movies_genre_53_1'' \<mapsto>
          \<lparr>data = [movieMeta sampleRecord ''tt0133093''], timestamp = 1000\<rparr>]"
proof -
  have k: "op_key (describe (GetMoviesByGenre 53) 1) = ''movies_genre_53_1''"
    by (simp add: showInt_small) (simp add: mk_fields)
  have hit: "cached_hit 1000 (op_key (describe (GetMoviesByGenre 53) 1)) (cache cachedState) = Some []"
    unfolding k by (simp add: cachedState_def cached_hit_def CACHE_TTL_def)
  have miss: "cached_hit 1000 (op_key (describe (GetMoviesByGenre 53) 1)) (cache sampleState) = None"
    by (simp add: sampleState_def cached_hit_def)
  have l: "listing (op_kind (describe (GetMoviesByGenre 53) 1)) pageUpstream
        (op_endpoint (describe (GetMoviesByGenre 53) 1))
        (op_params (describe (GetMoviesByGenre 53) 1)) sampleState =
       (Inr [movieMeta sampleRecord ''tt0133093''],
        pageState (requestUrl ''secret'' ''fr-FR'' ''/discover/movie''
          (op_params (describe (GetMoviesByGenre 53) 1))))"
    using sample_page_listing [of "''/discover/movie''" "op_params (describe (GetMoviesByGenre 53) 1)"]
    by (simp add: mk_fields)
  have s: "fst (searchMovies pageUpstream (PValue ''matrix'') 1 sampleState) =
       Inr [movieMeta sampleRecord ''tt0133093'']"
    using sample_page_listing [of "''/search/movie''" "[(''query'', PValue ''matrix''), (''page'', num 1)]"]
    by (simp add: searchMovies_def)
  have c: "cachedState = sampleState\<lparr>cache := cache cachedState\<rparr>"
    by (simp add: cachedState_def)
  have s': "fst (searchMovies pageUpstream (PValue ''matrix'') 1 cachedState) =
       Inr [movieMeta sampleRecord ''tt0133093'']"
    using search_bypasses_cache [of pageUpstream "PValue ''matrix''" 1 sampleState 0 GetTopRatedMovies]
      s c
    by (metis fst_conv)
  have w: "cache (pageState u) = Map.empty" for u
    by (simp add: pageState_def sampleState_def)
  show ?thesis
    using search_bypasses_cache [of pageUpstream "PValue ''matrix''" 1 cachedState 1000 "GetMoviesByGenre 53"]
      search_bypasses_cache [of pageUpstream "PValue ''matrix''" 1 sampleState 1000 "GetMoviesByGenre 53"]
      hit miss l s'
    unfolding k by (simp add: w sampleState_def)
qed

subsection \<open>Formatting a page of records\<close>

lemma promiseAll_Cons:
  "promiseAll_map f (x # xs) st =
     (fst (f x st) # fst (promiseAll_map f xs (snd (f x st))),
      snd (promiseAll_map f xs (snd (f x st))))"
  by (simp split: prod.splits)

lemma promiseAll_length: "length (fst (promiseAll_map f xs st)) = length xs"
  by (induction xs arbitrary: st) (simp_all add: promiseAll_Cons del: promiseAll_map.simps(2))

text \<open>
  The result at position \<open>i\<close> is what \<open>f\<close> returns for the \<open>i\<close>-th element in the state left
  by the elements before it.
\<close>

lemma promiseAll_nth:
  "i < length xs \<Longrightarrow>
   fst (promiseAll_map f xs st) ! i = fst (f (xs ! i) (snd (promiseAll_map f (take i xs) st)))"
proof (induction xs arbitrary: st i)
  case Nil
  then show ?case by simp
next
  case (Cons x xs)
  show ?case
  proof (cases i)
    case 0
    then show ?thesis by (simp add: promiseAll_Cons del: promiseAll_map.simps(2))
  next
    case (Suc j)
    then have "j < length xs" using Cons.prems by simp
    then show ?thesis
      using Cons.IH [of j "snd (f x st)"] Suc
      by (simp add: promiseAll_Cons del: promiseAll_map.simps(2))
  qed
qed

lemma formatOne_None_iff:
  "fst (formatOne kd seen up r s) = None \<longleftrightarrow>
   lacksId r \<or> \<not> truthy (resolved kd seen up r s)"
  by (cases kd)
     (auto simp: formatOne_def resolved_def formatMovie_from_def formatSeries_from_def
        split: prod.splits)

lemma formatOne_Some:
  "fst (formatOne kd seen up r s) = Some m \<Longrightarrow>
   id_m m \<noteq> [] \<and> imdb_id_m m = id_m m \<and> resolved kd seen up r s = Some (id_m m)"
  by (cases kd)
     (auto simp: formatOne_def resolved_def formatMovie_from_def formatSeries_from_def
        truthy_def movieMeta_def seriesMeta_def split: prod.splits if_splits option.splits)

lemma formatAll_length: "length (fst (formatAll kd up rs st)) = length rs"
  by (simp add: formatAll_def promiseAll_length)

lemma formatAll_nth:
  "i < length rs \<Longrightarrow>
   fst (formatAll kd up rs st) ! i =
   fst (formatOne kd (imdbCache st) up (rs ! i) (snd (formatAll kd up (take i rs) st)))"
  using promiseAll_nth [of i rs "formatOne kd (imdbCache st) up" st]
  by (simp add: formatAll_def)

lemma formatAll_ids:
  assumes "m \<in> set (filterBoolean (fst (formatAll kd up rs st)))"
  shows "id_m m \<noteq> [] \<and> imdb_id_m m \<noteq> []"
proof -
  from assms have "Some m \<in> set (fst (formatAll kd up rs st))"
    by (auto simp: filterBoolean_def)
  then obtain i where i: "i < length rs" "fst (formatAll kd up rs st) ! i = Some m"
    by (auto simp: in_set_conv_nth formatAll_length)
  then have "fst (formatOne kd (imdbCache st) up (rs ! i) (snd (formatAll kd up (take i rs) st))) = Some m"
    by (simp add: formatAll_nth)
  then show ?thesis using formatOne_Some by fastforce
qed

lemma filterBoolean_Some: "map Some (filterBoolean rs) = filter (\<lambda>x. x \<noteq> None) rs"
  by (induction rs) (auto simp: filterBoolean_def)

lemma filterBoolean_length: "length (filterBoolean rs) \<le> length rs"
  by (simp add: filterBoolean_def)

lemma listing_Inr:
  assumes "listing kd up endpoint params st = (Inr out, st')"
  shows "\<exists>d rs. fst (tmdb_fetch up endpoint params st) = Inr d \<and> results d = Some rs \<and>
           out = filterBoolean (fst (formatAll kd up rs (snd (tmdb_fetch up endpoint params st))))"
  using assms
  by (auto simp: listing_def split: prod.splits sum.splits option.splits)

lemma listing_ids:
  assumes "listing kd up endpoint params st = (Inr out, st')" and "m \<in> set out"
  shows "id_m m \<noteq> [] \<and> imdb_id_m m \<noteq> []"
  using listing_Inr [OF assms(1)] assms(2) formatAll_ids by blast

lemma getMoviesByGenre_catalogueFetch:
  "getMoviesByGenre up now genreId page st =
   catalogueFetch up now (GetMoviesByGenre genreId) page st"
  by (simp add: getMoviesByGenre_def catalogueFetch_def mk_fields)

text \<open>
  A response cache that holds only lists without empty ids stays so under every named
  operation, and the operation returns such a list.
\<close>

lemma catalogueFetch_ids:
  assumes good: "\<forall>k e. cache st k = Some e \<longrightarrow> (\<forall>m\<in>set (data e). id_m m \<noteq> [])"
    and run: "catalogueFetch up now c page st = (Inr out, st')"
  shows "(\<forall>m\<in>set out. id_m m \<noteq> []) \<and>
         (\<forall>k e. cache st' k = Some e \<longrightarrow> (\<forall>m\<in>set (data e). id_m m \<noteq> []))"
proof (cases "cached_hit now (op_key (describe c page)) (cache st)")
  case (Some d)
  then have eq: "out = d" "st' = st" using run by (simp_all add: catalogueFetch_def cached_on_hit)
  obtain e where "cache st (op_key (describe c page)) = Some e" "data e = d"
    using Some by (auto simp: cached_hit_def split: option.splits if_splits)
  then show ?thesis using good eq by blast
next
  case None
  let ?fn = "listing (op_kind (describe c page)) up (op_endpoint (describe c page))
          (op_params (describe c page))"
  obtain r st1 where f: "?fn st = (r, st1)" by (cases "?fn st")
  have keep: "cache st1 = cache st"
    using cacheFree_cache [OF listing_cacheFree, of "op_kind (describe c page)" up
        "op_endpoint (describe c page)" "op_params (describe c page)" st] f
    by simp
  have r: "r = Inr out" and st': "st' = st1\<lparr>cache :=
      cached_store now (op_key (describe c page)) out (cache st1)\<rparr>"
    using run None f by (auto simp: catalogueFetch_def cached_on_miss split: sum.splits)
  have ids: "\<forall>m\<in>set out. id_m m \<noteq> []"
    using listing_ids f r by blast
  then show ?thesis using good keep st' by (auto simp: cached_store_def)
qed

text \<open>
  C1. When a catalogue fetch operation formats a list of raw records, the result at each
  position is absent exactly when the record is \<open>null\<close>, has no upstream id, or gets no
  external id from the resolver; the returned list is the list of results without the
  absent ones, in order. So it is no longer than the input, and no returned metadata has
  an empty or missing external id. The same holds for the list a listing returns and,
  when the response cache holds only such lists, for what every named operation
  (\<open>getMoviesByGenre\<close> is one) returns, from the cache or not; the cache then still
  holds only such lists.
\<close>

theorem absent_ids_are_dropped:
  "length (fst (formatAll kd up rs st)) = length rs
   \<and> (\<forall>i<length rs.
        (fst (formatAll kd up rs st) ! i = None) =
        (lacksId (rs ! i) \<or>
         \<not> truthy (resolved kd (imdbCache st) up (rs ! i) (snd (formatAll kd up (take i rs) st)))))
   \<and> map Some (filterBoolean (fst (formatAll kd up rs st))) =
       filter (\<lambda>x. x \<noteq> None) (fst (formatAll kd up rs st))
   \<and> length (filterBoolean (fst (formatAll kd up rs st))) \<le> length rs
   \<and> (\<forall>m\<in>set (filterBoolean (fst (formatAll kd up rs st))). id_m m \<noteq> [] \<and> imdb_id_m m \<noteq> [])
   \<and> (\<forall>out st'. listing kd up endpoint params st = (Inr out, st') \<longrightarrow>
        (\<exists>d pg. fst (tmdb_fetch up endpoint params st) = Inr d \<and> results d = Some pg \<and>
           length out \<le> length pg) \<and>
        (\<forall>m\<in>set out. id_m m \<noteq> [] \<and> imdb_id_m m \<noteq> []))
   \<and> (\<forall>out st'. (\<forall>k e. cache st k = Some e \<longrightarrow> (\<forall>m\<in>set (data e). id_m m \<noteq> [])) \<and>
        catalogueFetch up now c page st = (Inr out, st') \<longrightarrow>
        (\<forall>m\<in>set out. id_m m \<noteq> []) \<and>
        (\<forall>k e. cache st' k = Some e \<longrightarrow> (\<forall>m\<in>set (data e). id_m m \<noteq> [])))
   \<and> getMoviesByGenre up now genreId page st =
       catalogueFetch up now (GetMoviesByGenre genreId) page st"
proof -
  have a: "length (fst (formatAll kd up rs st)) = length rs" by (rule formatAll_length)
  have b: "\<forall>i<length rs.
        (fst (formatAll kd up rs st) ! i = None) =
        (lacksId (rs ! i) \<or>
         \<not> truthy (resolved kd (imdbCache st) up (rs ! i) (snd (formatAll kd up (take i rs) st))))"
    by (simp add: formatAll_nth formatOne_None_iff)
  have c: "map Some (filterBoolean (fst (formatAll kd up rs st))) =
       filter (\<lambda>x. x \<noteq> None) (fst (formatAll kd up rs st))"
    by (rule filterBoolean_Some)
  have d: "length (filterBoolean (fst (formatAll kd up rs st))) \<le> length rs"
    using filterBoolean_length [of "fst (formatAll kd up rs st)"] by (simp add: formatAll_length)
  have e: "\<forall>m\<in>set (filterBoolean (fst (formatAll kd up rs st))). id_m m \<noteq> [] \<and> imdb_id_m m \<noteq> []"
    using formatAll_ids by blast
  have f: "(\<exists>d pg. fst (tmdb_fetch up endpoint params st) = Inr d \<and> results d = Some pg \<and>
           length out \<le> length pg) \<and>
        (\<forall>m\<in>set out. id_m m \<noteq> [] \<and> imdb_id_m m \<noteq> [])"
    if l: "listing kd up endpoint params st = (Inr out, st')" for out st'
  proof
    from listing_Inr [OF l] obtain d pg where
      dp: "fst (tmdb_fetch up endpoint params st) = Inr d" "results d = Some pg"
        "out = filterBoolean (fst (formatAll kd up pg (snd (tmdb_fetch up endpoint params st))))"
      by blast
    have "length out \<le> length pg"
      using filterBoolean_length [of "fst (formatAll kd up pg (snd (tmdb_fetch up endpoint params st)))"]
        dp(3) by (simp add: formatAll_length)
    with dp show "\<exists>d pg. fst (tmdb_fetch up endpoint params st) = Inr d \<and> results d = Some pg \<and>
           length out \<le> length pg"
      by blast
    show "\<forall>m\<in>set out. id_m m \<noteq> [] \<and> imdb_id_m m \<noteq> []"
      using listing_ids [OF l] by blast
  qed
  have g: "(\<forall>m\<in>set out. id_m m \<noteq> []) \<and>
        (\<forall>k e. cache st' k = Some e \<longrightarrow> (\<forall>m\<in>set (data e). id_m m \<noteq> []))"
    if "(\<forall>k e. cache st k = Some e \<longrightarrow> (\<forall>m\<in>set (data e). id_m m \<noteq> [])) \<and>
        catalogueFetch up now c page st = (Inr out, st')" for out st'
    using that catalogueFetch_ids [of st up now c page out st'] by blast
  have h: "getMoviesByGenre up now genreId page st =
       catalogueFetch up now (GetMoviesByGenre genreId) page st"
    by (rule getMoviesByGenre_catalogueFetch)
  from a b c d e f g h show ?thesis by blast
qed

theorem absent_ids_are_dropped_witness:
  "fst (formatAll Movie pageUpstream samplePage sampleState) =
     [Some (movieMeta sampleRecord ''tt0133093''), None, None, None]
   \<and> length samplePage = 4
   \<and> lacksId (samplePage ! 1) \<and> lacksId (samplePage ! 2) \<and> \<not> lacksId (samplePage ! 3)
   \<and> \<not> truthy (resolved Movie (imdbCache sampleState) pageUpstream (samplePage ! 3)
          (snd (formatAll Movie pageUpstream (take 3 samplePage) sampleState)))
   \<and> filterBoolean (fst (formatAll Movie pageUpstream samplePage sampleState)) =
       [movieMeta sampleRecord ''tt0133093'']
   \<and> id_m (movieMeta sampleRecord ''tt0133093'') \<noteq> []
   \<and> listing Movie pageUpstream ''/discover/movie'' [] sampleState =
       (Inr [movieMeta sampleRecord ''tt0133093''],
        pageState (requestUrl ''secret'' ''fr-FR'' ''/discover/movie'' []))
   \<and> cache warmState =
       [''movies_genre_53_1'' \<mapsto>
          \<lparr>data = [movieMeta sampleRecord ''tt0133093''], timestamp = 0\<rparr>]
   \<and> catalogueFetch pageUpstream 1000 (GetMoviesByGenre 53) 1 warmState =
       (Inr [movieMeta sampleRecord ''tt0133093''], warmState)
   \<and> getMoviesByGenre pageUpstream 1000 53 1 warmState =
       (Inr [movieMeta sampleRecord ''tt0133093''], warmState)"
proof -
  let ?m = "movieMeta sampleRecord ''tt0133093''"
  let ?rs = "fst (formatAll Movie pageUpstream samplePage sampleState)"
  note inst = absent_ids_are_dropped [of Movie pageUpstream samplePage sampleState
      "''/discover/movie''" "[]" 1000 "GetMoviesByGenre 53" 1 53]
  note inst' = absent_ids_are_dropped [of Movie pageUpstream samplePage warmState
      "''/discover/movie''" "[]" 1000 "GetMoviesByGenre 53" 1 53]
  have f: "?rs = [Some ?m, None, None, None]"
    using sample_page_formatAll [of sampleState] by (simp add: sampleState_def)
  have len: "length samplePage = 4" by (simp add: samplePage_def)
  have ids: "lacksId (samplePage ! 1)" "lacksId (samplePage ! 2)" "\<not> lacksId (samplePage ! 3)"
    by (simp_all add: samplePage_def lacksId_def sampleRecord_def)
  have three: "(?rs ! 3 = None) =
        (lacksId (samplePage ! 3) \<or>
         \<not> truthy (resolved Movie (imdbCache sampleState) pageUpstream (samplePage ! 3)
            (snd (formatAll Movie pageUpstream (take 3 samplePage) sampleState))))"
    using inst len by simp
  have r: "\<not> truthy (resolved Movie (imdbCache sampleState) pageUpstream (samplePage ! 3)
          (snd (formatAll Movie pageUpstream (take 3 samplePage) sampleState)))"
    using three ids(3) by (simp add: f)
  have fb: "filterBoolean ?rs = [?m]" by (simp add: f filterBoolean_def)
  have "\<forall>m\<in>set (filterBoolean ?rs). id_m m \<noteq> [] \<and> imdb_id_m m \<noteq> []"
    using inst by blast
  then have idm: "id_m ?m \<noteq> []" by (simp add: fb)
  have l: "listing Movie pageUpstream ''/discover/movie'' [] sampleState =
       (Inr [?m], pageState (requestUrl ''secret'' ''fr-FR'' ''/discover/movie'' []))"
    using sample_page_listing [of "''/discover/movie''" "[]"] by simp
  have c: "cache warmState = [''movies_genre_53_1'' \<mapsto> \<lparr>data = [?m], timestamp = 0\<rparr>]"
    by (simp add: warmState_def)
  have g: "getMoviesByGenre pageUpstream 1000 53 1 warmState = (Inr [?m], warmState)"
    by (simp add: getMoviesByGenre_def showInt_small cached_def cached_hit_def c CACHE_TTL_def)
  have g': "catalogueFetch pageUpstream 1000 (GetMoviesByGenre 53) 1 warmState = (Inr [?m], warmState)"
    using inst' g by simp
  show ?thesis using f len ids r fb idm l c g g' by simp
qed

subsection \<open>The identifier resolver\<close>

lemma tmdb_fetch_state:
  "snd (tmdb_fetch up endpoint params st) =
   st\<lparr>requests := requests st @ [requestUrl (apiKey st) (language st) endpoint params]\<rparr>"
  by (simp add: tmdb_fetch_def Let_def split: reply.splits option.splits)

lemma resolve_unfold:
  "resolve kd up i st =
     (case imdbCache st (imdbKey kd i) of
        Some v \<Rightarrow> (v, st)
      | None \<Rightarrow>
          (case tmdb_fetch up (externalIdsEndpoint kd i) [] st of
             (Inl err, st') \<Rightarrow> (None, st')
           | (Inr d, st') \<Rightarrow>
               (js_or (imdb_id d) None,
                st'\<lparr>imdbCache := (imdbCache st')(imdbKey kd i \<mapsto> js_or (imdb_id d) None)\<rparr>)))"
  by (cases kd)
     (auto simp: resolve_def getMovieImdbId_def getSeriesImdbId_def getMovieImdbId_from_def
        getSeriesImdbId_from_def imdbKey_def externalIdsEndpoint_def Let_def
        split: option.splits prod.splits sum.splits)

lemma resolve_cached: "imdbCache st (imdbKey kd i) = Some v \<Longrightarrow> resolve kd up i st = (v, st)"
  by (simp add: resolve_unfold)

lemma resolve_failure:
  assumes "imdbCache st (imdbKey kd i) = None"
    and "isl (fst (tmdb_fetch up (externalIdsEndpoint kd i) [] st))"
  shows "resolve kd up i st =
     (None, st\<lparr>requests := requests st @
        [requestUrl (apiKey st) (language st) (externalIdsEndpoint kd i) []]\<rparr>)"
proof -
  obtain r st1 where f: "tmdb_fetch up (externalIdsEndpoint kd i) [] st = (r, st1)"
    by (cases "tmdb_fetch up (externalIdsEndpoint kd i) [] st")
  then have "st1 = st\<lparr>requests := requests st @
        [requestUrl (apiKey st) (language st) (externalIdsEndpoint kd i) []]\<rparr>"
    using tmdb_fetch_state [of up "externalIdsEndpoint kd i" "[]" st] by simp
  moreover obtain e where "r = Inl e" using assms(2) f by (cases r) auto
  ultimately show ?thesis using assms(1) f by (simp add: resolve_unfold)
qed

lemma resolve_success:
  assumes "imdbCache st (imdbKey kd i) = None"
    and "fst (tmdb_fetch up (externalIdsEndpoint kd i) [] st) = Inr d"
  shows "resolve kd up i st =
     (js_or (imdb_id d) None,
      st\<lparr>requests := requests st @
            [requestUrl (apiKey st) (language st) (externalIdsEndpoint kd i) []],
         imdbCache := (imdbCache st)(imdbKey kd i \<mapsto> js_or (imdb_id d) None)\<rparr>)"
proof -
  obtain r st1 where f: "tmdb_fetch up (externalIdsEndpoint kd i) [] st = (r, st1)"
    by (cases "tmdb_fetch up (externalIdsEndpoint kd i) [] st")
  then have "st1 = st\<lparr>requests := requests st @
        [requestUrl (apiKey st) (language st) (externalIdsEndpoint kd i) []]\<rparr>"
    using tmdb_fetch_state [of up "externalIdsEndpoint kd i" "[]" st] by simp
  moreover have "r = Inr d" using assms(2) f by simp
  ultimately show ?thesis using assms(1) f by (simp add: resolve_unfold)
qed

text \<open>An entry of the identifier cache survives every later resolver call.\<close>

lemma resolve_persist:
  assumes "imdbCache st k = Some v"
  shows "imdbCache (snd (resolve kd up i st)) k = Some v"
proof (cases "imdbCache st (imdbKey kd i)")
  case (Some w)
  then show ?thesis using assms by (simp add: resolve_cached)
next
  case None
  then have ne: "imdbKey kd i \<noteq> k" using assms by auto
  show ?thesis
  proof (cases "fst (tmdb_fetch up (externalIdsEndpoint kd i) [] st)")
    case (Inl e)
    then show ?thesis using resolve_failure [OF None, of up] assms by simp
  next
    case (Inr d)
    then show ?thesis using resolve_success [OF None Inr] assms ne by simp
  qed
qed

text \<open>So it does through the formatters, which write only under keys they have not seen.\<close>

lemma getMovieImdbId_from_persist:
  "seen k = Some v \<Longrightarrow> imdbCache st k = Some v \<Longrightarrow>
   imdbCache (snd (getMovieImdbId_from seen up i st)) k = Some v"
  using tmdb_fetch_state [of up "''/movie/'' @ showInt i @ ''/external_ids''" "[]" st]
  by (cases "tmdb_fetch up (''/movie/'' @ showInt i @ ''/external_ids'') [] st")
     (auto simp: getMovieImdbId_from_def Let_def split: option.splits sum.splits)

lemma getSeriesImdbId_from_persist:
  "seen k = Some v \<Longrightarrow> imdbCache st k = Some v \<Longrightarrow>
   imdbCache (snd (getSeriesImdbId_from seen up i st)) k = Some v"
  using tmdb_fetch_state [of up "''/tv/'' @ showInt i @ ''/external_ids''" "[]" st]
  by (cases "tmdb_fetch up (''/tv/'' @ showInt i @ ''/external_ids'') [] st")
     (auto simp: getSeriesImdbId_from_def Let_def split: option.splits sum.splits)

lemma formatOne_persist:
  "seen k = Some v \<Longrightarrow> imdbCache st k = Some v \<Longrightarrow>
   imdbCache (snd (formatOne kd seen up r st)) k = Some v"
  using getMovieImdbId_from_persist [of seen k v st up "the (id_r (the r))"]
    getSeriesImdbId_from_persist [of seen k v st up "the (id_r (the r))"]
  by (auto simp: formatOne_def formatMovie_from_def formatSeries_from_def
      split: kind.splits prod.splits)

lemma promiseAll_persist:
  assumes "\<And>x st. imdbCache st k = Some v \<Longrightarrow> imdbCache (snd (f x st)) k = Some v"
  shows "imdbCache st k = Some v \<Longrightarrow> imdbCache (snd (promiseAll_map f xs st)) k = Some v"
  by (induction xs arbitrary: st)
     (simp_all add: promiseAll_Cons assms del: promiseAll_map.simps(2))

lemma formatAll_persist:
  "imdbCache st k = Some v \<Longrightarrow> imdbCache (snd (formatAll kd up rs st)) k = Some v"
  unfolding formatAll_def by (rule promiseAll_persist) (simp_all add: formatOne_persist)

lemma listing_persist:
  assumes "imdbCache st k = Some v"
  shows "imdbCache (snd (listing kd up endpoint params st)) k = Some v"
proof -
  have s: "imdbCache (snd (tmdb_fetch up endpoint params st)) k = Some v"
    using assms by (simp add: tmdb_fetch_state)
  obtain r st1 where f: "tmdb_fetch up endpoint params st = (r, st1)"
    by (cases "tmdb_fetch up endpoint params st")
  have s1: "imdbCache st1 k = Some v" using s f by simp
  show ?thesis
  proof (cases r)
    case (Inl e)
    then show ?thesis using f s1 by (simp add: listing_def)
  next
    case (Inr d)
    show ?thesis
    proof (cases "results d")
      case None
      then show ?thesis using f Inr s1 by (simp add: listing_def)
    next
      case (Some rs)
      have "listing kd up endpoint params st =
            (Inr (filterBoolean (fst (formatAll kd up rs st1))), snd (formatAll kd up rs st1))"
        using f Inr Some by (simp add: listing_def split: prod.splits)
      then show ?thesis using formatAll_persist [OF s1, of kd up rs] by simp
    qed
  qed
qed

lemma catalogueFetch_persist:
  assumes "imdbCache st k = Some v"
  shows "imdbCache (snd (catalogueFetch up now c page st)) k = Some v"
  using assms
    listing_persist [OF assms, of "op_kind (describe c page)" up
      "op_endpoint (describe c page)" "op_params (describe c page)"]
  by (auto simp: catalogueFetch_def cached_def split: option.splits sum.splits prod.splits)

lemma runCall_persist:
  "imdbCache st k = Some v \<Longrightarrow> imdbCache (runCall up c st) k = Some v"
  by (cases c)
     (simp_all add: resolve_persist catalogueFetch_persist listing_persist
        searchMovies_def searchSeries_def)

lemma runMany_persist:
  "imdbCache st k = Some v \<Longrightarrow> imdbCache (runMany calls st) k = Some v"
proof (induction calls arbitrary: st)
  case Nil
  then show ?case by simp
next
  case (Cons c calls)
  obtain up cl where c: "c = (up, cl)" by (cases c)
  show ?case using Cons runCall_persist [of st k v up cl] by (simp add: c)
qed

text \<open>
  C2. Take a kind and an upstream id that the identifier cache does not hold. If the
  upstream request of the resolver fails (the request is rejected, the status is not a
  success, or the body is not JSON), the resolver returns absent, raises nothing, leaves
  the identifier cache as it was, and a second call for the same kind and id sends the
  same request again. If the request succeeds, the resolver returns the external id of
  the body, or absent when the body has none, and stores that outcome: after any number
  of later calls of the client (resolver calls, named operations, searches), a call for
  the same kind and id returns the stored outcome and sends no request.
\<close>

theorem resolver_errors_not_cached:
  assumes "imdbCache st (imdbKey kd i) = None"
  shows "(isl (fst (tmdb_fetch up (externalIdsEndpoint kd i) [] st)) \<longrightarrow>
            resolve kd up i st =
              (None, st\<lparr>requests := requests st @
                 [requestUrl (apiKey st) (language st) (externalIdsEndpoint kd i) []]\<rparr>)
          \<and> imdbCache (snd (resolve kd up i st)) = imdbCache st
          \<and> (\<forall>up'. requests (snd (resolve kd up' i (snd (resolve kd up i st)))) =
                 requests st @
                 [requestUrl (apiKey st) (language st) (externalIdsEndpoint kd i) [],
                  requestUrl (apiKey st) (language st) (externalIdsEndpoint kd i) []]))
       \<and> (\<forall>d. fst (tmdb_fetch up (externalIdsEndpoint kd i) [] st) = Inr d \<longrightarrow>
            fst (resolve kd up i st) = js_or (imdb_id d) None
          \<and> imdbCache (snd (resolve kd up i st)) =
              (imdbCache st)(imdbKey kd i \<mapsto> js_or (imdb_id d) None)
          \<and> (\<forall>calls up'.
                resolve kd up' i (runMany calls (snd (resolve kd up i st))) =
                  (js_or (imdb_id d) None, runMany calls (snd (resolve kd up i st)))))"
proof (intro conjI impI allI)
  let ?u = "requestUrl (apiKey st) (language st) (externalIdsEndpoint kd i) []"
  assume fail: "isl (fst (tmdb_fetch up (externalIdsEndpoint kd i) [] st))"
  show r1: "resolve kd up i st = (None, st\<lparr>requests := requests st @ [?u]\<rparr>)"
    using resolve_failure [OF assms fail] .
  show "imdbCache (snd (resolve kd up i st)) = imdbCache st" by (simp add: r1)
  fix up'
  let ?st1 = "st\<lparr>requests := requests st @ [?u]\<rparr>"
  have none1: "imdbCache ?st1 (imdbKey kd i) = None" using assms by simp
  have "requests (snd (resolve kd up' i ?st1)) = requests ?st1 @ [?u]"
  proof (cases "fst (tmdb_fetch up' (externalIdsEndpoint kd i) [] ?st1)")
    case (Inl e)
    then show ?thesis using resolve_failure [OF none1, of up'] by simp
  next
    case (Inr d)
    then show ?thesis using resolve_success [OF none1 Inr] by simp
  qed
  then show "requests (snd (resolve kd up' i (snd (resolve kd up i st)))) = requests st @ [?u, ?u]"
    by (simp add: r1)
next
  fix d
  assume ok: "fst (tmdb_fetch up (externalIdsEndpoint kd i) [] st) = Inr d"
  note r = resolve_success [OF assms ok]
  show "fst (resolve kd up i st) = js_or (imdb_id d) None" by (simp add: r)
  show c: "imdbCache (snd (resolve kd up i st)) =
              (imdbCache st)(imdbKey kd i \<mapsto> js_or (imdb_id d) None)"
    by (simp add: r)
  fix calls up'
  have "imdbCache (runMany calls (snd (resolve kd up i st))) (imdbKey kd i) =
        Some (js_or (imdb_id d) None)"
    by (rule runMany_persist) (simp add: c)
  then show "resolve kd up' i (runMany calls (snd (resolve kd up i st))) =
                  (js_or (imdb_id d) None, runMany calls (snd (resolve kd up i st)))"
    by (rule resolve_cached)
qed

theorem resolver_errors_not_cached_witness:
  "imdbCache sampleState (imdbKey Movie 603) = None
   \<and> isl (fst (tmdb_fetch failingUpstream (externalIdsEndpoint Movie 603) [] sampleState))
   \<and> resolve Movie failingUpstream 603 sampleState =
       (None, sampleState\<lparr>requests := [sampleRequest ''/movie/603/external_ids'']\<rparr>)
   \<and> requests (snd (resolve Movie sampleUpstream 603
         (snd (resolve Movie failingUpstream 603 sampleState)))) =
       [sampleRequest ''/movie/603/external_ids'', sampleRequest ''/movie/603/external_ids'']
   \<and> fst (tmdb_fetch sampleUpstream (externalIdsEndpoint Movie 603) [] sampleState) =
       Inr \<lparr>imdb_id = Some ''tt0133093'', results = None\<rparr>
   \<and> fst (resolve Movie sampleUpstream 603 sampleState) = Some ''tt0133093''
   \<and> fst (resolve Movie failingUpstream 603
        (runMany [(failingUpstream, Resolve Series 603), (pageUpstream, Fetch 0 GetTopRatedMovies 1)]
           (snd (resolve Movie sampleUpstream 603 sampleState)))) = Some ''tt0133093''"
proof -
  have n: "imdbCache sampleState (imdbKey Movie 603) = None" by (simp add: sampleState_def)
  have e: "externalIdsEndpoint Movie 603 = ''/movie/603/external_ids''"
    by (simp add: externalIdsEndpoint_def showInt_603)
  have u: "requestUrl (apiKey sampleState) (language sampleState) ''/movie/603/external_ids'' [] =
           sampleRequest ''/movie/603/external_ids''"
    by (simp add: requestUrl_def searchParams_set_def sampleState_def sampleRequest_def
        TMDB_BASE_URL_def)
  have f: "isl (fst (tmdb_fetch failingUpstream (externalIdsEndpoint Movie 603) [] sampleState))"
    by (simp add: tmdb_fetch_def Let_def failingUpstream_def)
  have s: "fst (tmdb_fetch sampleUpstream (externalIdsEndpoint Movie 603) [] sampleState) =
       Inr \<lparr>imdb_id = Some ''tt0133093'', results = None\<rparr>"
    by (simp add: tmdb_fetch_def Let_def sampleUpstream_def)
  have j: "js_or (Some ''tt0133093'') None = Some ''tt0133093''"
    by (simp add: js_or_def truthy_def)
  have rq: "requests sampleState = []" by (simp add: sampleState_def)
  note a = resolver_errors_not_cached [OF n, of failingUpstream]
  note b = resolver_errors_not_cached [OF n, of sampleUpstream]
  from a f have "resolve Movie failingUpstream 603 sampleState =
       (None, sampleState\<lparr>requests := requests sampleState @
          [requestUrl (apiKey sampleState) (language sampleState)
             (externalIdsEndpoint Movie 603) []]\<rparr>)"
    by blast
  then have r1: "resolve Movie failingUpstream 603 sampleState =
       (None, sampleState\<lparr>requests := [sampleRequest ''/movie/603/external_ids'']\<rparr>)"
    by (simp add: e u rq)
  from a f have "requests (snd (resolve Movie sampleUpstream 603
         (snd (resolve Movie failingUpstream 603 sampleState)))) =
       requests sampleState @
       [requestUrl (apiKey sampleState) (language sampleState) (externalIdsEndpoint Movie 603) [],
        requestUrl (apiKey sampleState) (language sampleState) (externalIdsEndpoint Movie 603) []]"
    by blast
  then have r2: "requests (snd (resolve Movie sampleUpstream 603
         (snd (resolve Movie failingUpstream 603 sampleState)))) =
       [sampleRequest ''/movie/603/external_ids'', sampleRequest ''/movie/603/external_ids'']"
    by (simp add: e u rq)
  from b s have "fst (resolve Movie sampleUpstream 603 sampleState) =
       js_or (imdb_id \<lparr>imdb_id = Some ''tt0133093'', results = None\<rparr>) None"
    by blast
  then have r3: "fst (resolve Movie sampleUpstream 603 sampleState) = Some ''tt0133093''"
    by (simp add: j)
  from b s have "resolve Movie failingUpstream 603
        (runMany [(failingUpstream, Resolve Series 603), (pageUpstream, Fetch 0 GetTopRatedMovies 1)]
           (snd (resolve Movie sampleUpstream 603 sampleState))) =
       (js_or (imdb_id \<lparr>imdb_id = Some ''tt0133093'', results = None\<rparr>) None,
        runMany [(failingUpstream, Resolve Series 603), (pageUpstream, Fetch 0 GetTopRatedMovies 1)]
           (snd (resolve Movie sampleUpstream 603 sampleState)))"
    by blast
  then have r4: "fst (resolve Movie failingUpstream 603
        (runMany [(failingUpstream, Resolve Series 603), (pageUpstream, Fetch 0 GetTopRatedMovies 1)]
           (snd (resolve Movie sampleUpstream 603 sampleState)))) = Some ''tt0133093''"
    by (simp add: j)
  from n f r1 r2 s r3 r4 show ?thesis by blast
qed

subsection \<open>The response cache over a run of calls\<close>

lemma callStep_tracked:
  assumes "keepsCache (c_fn c)" and "wellTimed c" and "tracked sr"
  shows "tracked (callStep c sr)"
proof (cases "cached_hit (c_now c) (c_key c) (cache (fst sr))")
  case (Some d)
  then have "callStep c sr = sr"
    by (simp add: callStep_def computed_def cached_def prod_eq_iff)
  then show ?thesis using assms(3) by simp
next
  case None
  obtain r st1 where f: "c_fn c (fst sr) = (r, st1)" by (cases "c_fn c (fst sr)")
  have keep: "cache st1 = cache (fst sr)"
    using assms(1) f by (auto simp: keepsCache_def dest: spec [of _ "fst sr"])
  show ?thesis
  proof (cases r)
    case (Inl e)
    then have "callStep c sr = (st1, snd sr)"
      using None f by (simp add: callStep_def computed_def cached_def)
    then show ?thesis using assms(3) keep by (simp add: tracked_def)
  next
    case (Inr v)
    then have "callStep c sr =
        (st1\<lparr>cache := cached_store (c_now c) (c_key c) v (cache st1)\<rparr>,
         (snd sr)(c_key c \<mapsto> (c_done c, v)))"
      using None f by (simp add: callStep_def computed_def cached_def)
    then show ?thesis
      using assms(2,3) keep by (auto simp: tracked_def cached_store_def wellTimed_def)
  qed
qed

lemma runCalls_tracked:
  "\<forall>c\<in>set cs. keepsCache (c_fn c) \<and> wellTimed c \<Longrightarrow> tracked sr \<Longrightarrow> tracked (runCalls cs sr)"
  by (induction cs arbitrary: sr) (auto simp: callStep_tracked)

lemma tracked_empty: "cache st0 = Map.empty \<Longrightarrow> tracked (st0, Map.empty)"
  by (simp add: tracked_def)

lemma tracked_hit:
  assumes "tracked (st, hist)" and "cached_hit now k (cache st) = Some v"
  shows "\<exists>d. hist k = Some (d, v) \<and> now - d < CACHE_TTL"
proof -
  from assms(2) obtain e where e: "cache st k = Some e" "now - timestamp e < CACHE_TTL" "data e = v"
    by (auto simp: cached_hit_def split: option.splits if_splits)
  from assms(1) e(1) have "\<exists>d. hist k = Some (d, data e) \<and> timestamp e \<le> d"
    by (simp add: tracked_def)
  with e(3) obtain d where "hist k = Some (d, v)" "timestamp e \<le> d"
    by auto
  with e show ?thesis by auto
qed

lemma tracked_stale:
  assumes "tracked (st, hist)" and "hist k = Some (d, v)" and "CACHE_TTL \<le> now - d"
  shows "cached_hit now k (cache st) = None"
proof (cases "cache st k")
  case None
  then show ?thesis by (simp add: cached_hit_def)
next
  case (Some e)
  with assms(1) have "\<exists>d'. hist k = Some (d', data e) \<and> timestamp e \<le> d'"
    by (simp add: tracked_def)
  with assms(2) have "timestamp e \<le> d" by auto
  with assms(3) Some show ?thesis by (simp add: cached_hit_def)
qed

lemma tracked_unknown:
  assumes "tracked (st, hist)" and "hist k = None"
  shows "cached_hit now k (cache st) = None"
proof (cases "cache st k")
  case None
  then show ?thesis by (simp add: cached_hit_def)
next
  case (Some e)
  with assms(1) have "\<exists>d'. hist k = Some (d', data e) \<and> timestamp e \<le> d'"
    by (simp add: tracked_def)
  with assms(2) show ?thesis by simp
qed

text \<open>
  C3. Run any sequence of calls of \<open>cached\<close> from an empty cache, each with a compute that
  leaves the cache alone and a clock that does not run backwards while it computes.
  Afterwards, for every key, every value that \<open>cached\<close> returns is either the value that
  compute last returned for the key, less than the TTL of 30 minutes ago, given back with
  the state untouched, or the value that compute returns now, in this call. A value
  answered from the cache is the value that compute last returned for the key, and it
  returned less than the TTL ago; a call made when the TTL or more has passed since that
  return runs compute again and answers with what compute gives, not with the stored
  value; and so does a call for a key for which compute never returned.
\<close>

theorem cached_values_within_ttl:
  assumes "\<forall>c\<in>set cs. keepsCache (c_fn c) \<and> wellTimed c"
    and "cache st0 = Map.empty"
    and "runCalls cs (st0, Map.empty) = (st, hist)"
  shows "(\<forall>v st'. cached now k fn st = (Inr v, st') \<longrightarrow>
            (cached_hit now k (cache st) = Some v \<and> st' = st \<and>
             (\<exists>d. hist k = Some (d, v) \<and> now - d < CACHE_TTL))
          \<or> (cached_hit now k (cache st) = None \<and>
              (\<exists>st1. fn st = (Inr v, st1) \<and>
                     st' = st1\<lparr>cache := cached_store now k v (cache st1)\<rparr>)))
       \<and> (\<forall>v. cached_hit now k (cache st) = Some v \<longrightarrow>
            (\<exists>d. hist k = Some (d, v) \<and> now - d < CACHE_TTL))
       \<and> (\<forall>d v. hist k = Some (d, v) \<and> CACHE_TTL \<le> now - d \<longrightarrow>
            cached now k fn st =
              (case fn st of
                 (Inl err, st') \<Rightarrow> (Inl err, st')
               | (Inr w, st') \<Rightarrow> (Inr w, st'\<lparr>cache := cached_store now k w (cache st')\<rparr>)))
       \<and> (hist k = None \<longrightarrow>
            cached_hit now k (cache st) = None \<and>
            cached now k fn st =
              (case fn st of
                 (Inl err, st') \<Rightarrow> (Inl err, st')
               | (Inr w, st') \<Rightarrow> (Inr w, st'\<lparr>cache := cached_store now k w (cache st')\<rparr>)))
       \<and> CACHE_TTL = 30 * 60 * 1000"
proof -
  have t: "tracked (st, hist)"
    using runCalls_tracked [OF assms(1) tracked_empty [OF assms(2)]] assms(3) by simp
  have returned: "(cached_hit now k (cache st) = Some v \<and> st' = st \<and>
             (\<exists>d. hist k = Some (d, v) \<and> now - d < CACHE_TTL))
          \<or> (cached_hit now k (cache st) = None \<and>
              (\<exists>st1. fn st = (Inr v, st1) \<and>
                     st' = st1\<lparr>cache := cached_store now k v (cache st1)\<rparr>))"
    if r: "cached now k fn st = (Inr v, st')" for v st'
  proof (cases "cached_hit now k (cache st)")
    case (Some w)
    then have "cached now k fn st = (Inr w, st)" by (rule cached_on_hit)
    with r have "w = v" "st' = st" by simp_all
    then show ?thesis using Some tracked_hit [OF t, of now k v] by simp
  next
    case None
    obtain x st1 where f: "fn st = (x, st1)" by (cases "fn st")
    have c: "cached now k fn st =
        (case x of Inl err \<Rightarrow> (Inl err, st1)
                 | Inr w \<Rightarrow> (Inr w, st1\<lparr>cache := cached_store now k w (cache st1)\<rparr>))"
      using cached_on_miss [OF None, of fn] f by (simp split: sum.splits)
    show ?thesis
    proof (cases x)
      case (Inl err)
      then show ?thesis using c r by simp
    next
      case (Inr w)
      then have "w = v" "st' = st1\<lparr>cache := cached_store now k w (cache st1)\<rparr>"
        using c r by simp_all
      then show ?thesis using None f Inr by simp
    qed
  qed
  have hit: "\<forall>v. cached_hit now k (cache st) = Some v \<longrightarrow>
            (\<exists>d. hist k = Some (d, v) \<and> now - d < CACHE_TTL)"
    using tracked_hit [OF t] by blast
  have stale: "\<forall>d v. hist k = Some (d, v) \<and> CACHE_TTL \<le> now - d \<longrightarrow>
            cached now k fn st =
              (case fn st of
                 (Inl err, st') \<Rightarrow> (Inl err, st')
               | (Inr w, st') \<Rightarrow> (Inr w, st'\<lparr>cache := cached_store now k w (cache st')\<rparr>))"
    using tracked_stale [OF t] by (auto simp: cached_on_miss)
  have unknown: "hist k = None \<longrightarrow>
            cached_hit now k (cache st) = None \<and>
            cached now k fn st =
              (case fn st of
                 (Inl err, st') \<Rightarrow> (Inl err, st')
               | (Inr w, st') \<Rightarrow> (Inr w, st'\<lparr>cache := cached_store now k w (cache st')\<rparr>))"
    using tracked_unknown [OF t] by (auto simp: cached_on_miss)
  have ttl: "CACHE_TTL = 30 * 60 * 1000" by (simp add: CACHE_TTL_def)
  from returned hit stale unknown ttl show ?thesis by blast
qed

theorem cached_values_within_ttl_witness:
  "keepsCache (c_fn sampleCall) \<and> wellTimed sampleCall
   \<and> cache sampleState = Map.empty
   \<and> cache (fst (runCalls [sampleCall] (sampleState, Map.empty))) =
       [''movies_genre_53_1'' \<mapsto> \<lparr>data = [movieMeta sampleRecord ''tt0133093''], timestamp = 0\<rparr>]
   \<and> snd (runCalls [sampleCall] (sampleState, Map.empty)) =
       [''movies_genre_53_1'' \<mapsto> (250, [movieMeta sampleRecord ''tt0133093''])]
   \<and> cached 1000 ''movies_genre_53_1''
        (listing Movie failingUpstream ''/discover/movie'' [])
        (fst (runCalls [sampleCall] (sampleState, Map.empty)))
       = (Inr [movieMeta sampleRecord ''tt0133093''], fst (runCalls [sampleCall] (sampleState, Map.empty)))
   \<and> cached_hit 1000 ''movies_genre_53_1'' (cache (fst (runCalls [sampleCall] (sampleState, Map.empty))))
       = Some [movieMeta sampleRecord ''tt0133093'']
   \<and> (1000 :: int) - 250 < CACHE_TTL
   \<and> CACHE_TTL \<le> 1800250 - 250
   \<and> fst (cached 1800250 ''movies_genre_53_1''
            (listing Movie failingUpstream ''/discover/movie'' [])
            (fst (runCalls [sampleCall] (sampleState, Map.empty)))) = Inl NetworkError"
proof -
  let ?m = "movieMeta sampleRecord ''tt0133093''"
  let ?u = "requestUrl ''secret'' ''fr-FR'' ''/discover/movie'' []"
  let ?st = "(pageState ?u)\<lparr>cache := [''movies_genre_53_1'' \<mapsto> \<lparr>data = [?m], timestamp = 0\<rparr>]\<rparr>"
  let ?fn = "listing Movie failingUpstream ''/discover/movie'' []"
  have kc: "keepsCache (c_fn sampleCall)" by (simp add: sampleCall_def listing_keepsCache)
  have wt: "wellTimed sampleCall" by (simp add: sampleCall_def wellTimed_def)
  have e: "cache sampleState = Map.empty" by (simp add: sampleState_def)
  have l: "listing Movie pageUpstream ''/discover/movie'' [] sampleState = (Inr [?m], pageState ?u)"
    using sample_page_listing [of "''/discover/movie''" "[]"] by simp
  have pc: "cache (pageState ?u) = Map.empty" by (simp add: pageState_def sampleState_def)
  have run: "runCalls [sampleCall] (sampleState, Map.empty) =
      (?st, [''movies_genre_53_1'' \<mapsto> (250, [?m])])"
    by (simp add: callStep_def computed_def cached_def cached_hit_def e sampleCall_def l
        cached_store_def pc)
  have all: "\<forall>c\<in>set [sampleCall]. keepsCache (c_fn c) \<and> wellTimed c" using kc wt by simp
  note inst = cached_values_within_ttl [OF all e run]
  have hit: "cached_hit 1000 ''movies_genre_53_1'' (cache ?st) = Some [?m]"
    by (simp add: cached_hit_def CACHE_TTL_def)
  have ret: "cached 1000 ''movies_genre_53_1'' ?fn ?st = (Inr [?m], ?st)"
    using hit by (rule cached_on_hit)
  have "(cached_hit 1000 ''movies_genre_53_1'' (cache ?st) = Some [?m] \<and> ?st = ?st \<and>
         (\<exists>d. [''movies_genre_53_1'' \<mapsto> (250 :: int, [?m])] ''movies_genre_53_1'' = Some (d, [?m])
              \<and> 1000 - d < CACHE_TTL))
        \<or> (cached_hit 1000 ''movies_genre_53_1'' (cache ?st) = None \<and>
            (\<exists>st1. ?fn ?st = (Inr [?m], st1) \<and>
                   ?st = st1\<lparr>cache := cached_store 1000 ''movies_genre_53_1'' [?m] (cache st1)\<rparr>))"
    using inst [of 1000 "''movies_genre_53_1''" ?fn, THEN conjunct1, rule_format, OF ret] .
  then have fresh: "(1000 :: int) - 250 < CACHE_TTL"
    using hit by auto
  have stale: "CACHE_TTL \<le> 1800250 - 250" by (simp add: CACHE_TTL_def)
  have fl: "fst (?fn ?st) = Inl NetworkError"
    by (simp add: listing_def tmdb_fetch_def Let_def failingUpstream_def)
  have "cached 1800250 ''movies_genre_53_1'' ?fn ?st =
      (case ?fn ?st of
         (Inl err, st') \<Rightarrow> (Inl err, st')
       | (Inr w, st') \<Rightarrow> (Inr w, st'\<lparr>cache := cached_store 1800250 ''movies_genre_53_1'' w (cache st')\<rparr>))"
    using inst [of 1800250 "''movies_genre_53_1''" ?fn, THEN conjunct2, THEN conjunct2, THEN conjunct1]
      stale by simp
  then have again: "fst (cached 1800250 ''movies_genre_53_1'' ?fn ?st) = Inl NetworkError"
    using fl by (simp split: prod.splits sum.splits)
  show ?thesis unfolding run using kc wt e ret hit fresh stale again by simp
qed

end
